theory Spec2Isabelle
  imports Complex_Main "HOL-Library.Log_Nat"
begin

section \<open>Die or Dare: the rules engine of \<open>die_or_dare.py\<close>\<close>

text \<open>
  A shallow embedding of the card model, the joker strategies, the deck-choice
  strategies, the duel state machine, shout resolution and the odds calculator.
  Python objects become records, enumerations become datatypes, exceptions become
  the left summand of \<open>error + 'a\<close>, and mutation becomes explicit state passing.
\<close>

subsection \<open>Exceptions\<close>

text \<open>
  The exceptions the embedded code raises; \<open>Exception\<close> is the plain base class, which
  an \<open>except ValueError\<close> does not catch.
\<close>

datatype error =
  ValueError | IndexError | TypeError | StopIteration | ZeroDivisionError | Exception

subsection \<open>The module \<open>constants\<close>\<close>

text \<open>
  The module \<open>constants\<close> is imported by the source but is not part of it. Its
  numeric limits are taken as parameters of every function that reads them.
\<close>

record Constants =
  MAX_DIE :: int
  MAX_DRAW :: int
  REQUIRED_POINTS :: int

text \<open>
  Modelled from the spec: \<open>constants.Suit\<close> is absent. Section 3 gives four suits,
  two of each colour; \<open>RedPile\<close> takes the suits of even value and \<open>BlackPile\<close>
  those of odd value.
\<close>

datatype Suit = DIAMOND | CLUB | HEART | SPADE

text \<open>
  Modelled from the spec: \<open>constants.Rank\<close> is absent. Section 3 gives the ranks
  A..K with the values 1..13; a card's \<open>_rank\<close> is \<open>constants.JOKER\<close> or the name
  of a rank, written here \<open>Rank v\<close> for the rank of value \<open>v\<close>.
\<close>

datatype RankName = JOKER | Rank nat

definition Rank_values :: "int list" where
  "Rank_values = map int [1..<14]"

datatype Action = IDLE | DARE | DIE | DONE | DRAW

subsection \<open>Card\<close>

text \<open>
  \<open>_value\<close> is \<open>None\<close> only for a joker between the construction of its pile and
  the joker-value strategy. No function below reads it there (the value strategies
  take the joker out before they read values, the odds calculator tests
  \<open>_is_joker()\<close> first), so the field is an \<open>int\<close> and an unassigned joker
  carries 0.
\<close>

record Card =
  card_suit :: "Suit option"
  card_colored :: bool
  card_rank :: RankName
  card_value :: int
  card_open :: bool

definition is_joker :: "Card \<Rightarrow> bool" where
  "is_joker c = (card_rank c = JOKER)"

text \<open>\<open>Card.__eq__\<close>: suit, colour and rank; value and \<open>open_\<close> are not compared.\<close>

definition card_eq :: "Card \<Rightarrow> Card \<Rightarrow> bool" where
  "card_eq a b = (card_suit a = card_suit b \<and> card_colored a = card_colored b
                  \<and> card_rank a = card_rank b)"

definition open_up :: "Card \<Rightarrow> Card" where
  "open_up c = c\<lparr>card_open := True\<rparr>"

subsection \<open>Python built-ins on lists of cards\<close>

text \<open>
  \<open>max(cards, key=lambda x: x._value)\<close> and \<open>min\<close>: the first extremal element,
  \<open>ValueError\<close> on an empty sequence.
\<close>

fun max_by_value :: "Card list \<Rightarrow> error + Card" where
  "max_by_value [] = Inl ValueError"
| "max_by_value (c # cs) =
     Inr (foldl (\<lambda>best x. if card_value best < card_value x then x else best) c cs)"

fun min_by_value :: "Card list \<Rightarrow> error + Card" where
  "min_by_value [] = Inl ValueError"
| "min_by_value (c # cs) =
     Inr (foldl (\<lambda>best x. if card_value x < card_value best then x else best) c cs)"

text \<open>\<open>cards.index(x)\<close>: the first position holding a card equal to \<open>x\<close>.\<close>

fun index_of :: "Card list \<Rightarrow> Card \<Rightarrow> error + nat" where
  "index_of [] x = Inl ValueError"
| "index_of (c # cs) x =
     (if card_eq c x then Inr 0
      else case index_of cs x of Inl e \<Rightarrow> Inl e | Inr i \<Rightarrow> Inr (Suc i))"

text \<open>
  \<open>xs[i], xs[j] = xs[j], xs[i]\<close> with non-negative \<open>i\<close>, \<open>j\<close>: both reads come
  first, then the two writes in order.
\<close>

definition swap_items :: "nat \<Rightarrow> nat \<Rightarrow> 'a list \<Rightarrow> error + 'a list" where
  "swap_items i j xs =
     (if i < length xs \<and> j < length xs then Inr ((xs[i := xs ! j])[j := xs ! i])
      else Inl IndexError)"

subsection \<open>Joker value strategies\<close>

text \<open>\<open>joker._value = v\<close> where \<open>joker\<close> is the first joker of the list.\<close>

fun set_joker_value :: "int \<Rightarrow> Card list \<Rightarrow> Card list" where
  "set_joker_value v [] = []"
| "set_joker_value v (c # cs) =
     (if is_joker c then c\<lparr>card_value := v\<rparr> # cs else c # set_joker_value v cs)"

definition Thirteen_apply :: "Card list \<Rightarrow> error + Card list" where
  "Thirteen_apply cards = Inr (set_joker_value (foldr max Rank_values 0) cards)"

definition SameAsMax_apply :: "Card list \<Rightarrow> error + Card list" where
  "SameAsMax_apply cards =
     (case find is_joker cards of
        None \<Rightarrow> Inr cards
      | Some joker \<Rightarrow>
          (case max_by_value (filter (\<lambda>card. \<not> card_eq card joker) cards) of
             Inl e \<Rightarrow> Inl e
           | Inr biggest \<Rightarrow> Inr (set_joker_value (card_value biggest) cards)))"

definition NextBiggest_apply :: "Card list \<Rightarrow> error + Card list" where
  "NextBiggest_apply cards =
     (case find is_joker cards of
        None \<Rightarrow> Inr cards
      | Some joker \<Rightarrow>
          (let cards_without_joker = filter (\<lambda>card. \<not> card_eq card joker) cards in
           case max_by_value cards_without_joker of
             Inl e \<Rightarrow> Inl e
           | Inr biggest \<Rightarrow>
               (case min_by_value cards_without_joker of
                  Inl e \<Rightarrow> Inl e
                | Inr smallest \<Rightarrow>
                    Inr (set_joker_value
                          (if card_value biggest = 1 then 1
                           else if card_value biggest = 2 then 3 - card_value smallest
                           else if card_value smallest = card_value biggest - 1
                                then card_value biggest - 2
                                else card_value biggest - 1)
                          cards))))"

subsection \<open>Joker position strategies\<close>

definition biggest :: "Card list \<Rightarrow> error + Card" where
  "biggest cards = max_by_value cards"

definition to_delegate :: "Card list \<Rightarrow> nat \<Rightarrow> error + Card list" where
  "to_delegate cards i = swap_items 0 i cards"

definition biggest_to_delegate :: "Card list \<Rightarrow> error + Card list" where
  "biggest_to_delegate cards =
     (case biggest cards of
        Inl e \<Rightarrow> Inl e
      | Inr b \<Rightarrow> (case index_of cards b of
                    Inl e \<Rightarrow> Inl e
                  | Inr biggest_index \<Rightarrow> to_delegate cards biggest_index))"

text \<open>
  The loop \<open>for i in range(len(cards)): if cards[i]._is_joker(): joker_index = i\<close>,
  started at \<open>-1\<close>: the position of the last joker.
\<close>

definition find_joker_index :: "Card list \<Rightarrow> int" where
  "find_joker_index cards =
     foldl (\<lambda>joker_index i. if is_joker (cards ! i) then int i else joker_index)
           (- 1) [0..<length cards]"

definition JokerLast_apply :: "Card list \<Rightarrow> error + Card list" where
  "JokerLast_apply cards =
     (let joker_index = find_joker_index cards in
      if joker_index > - 1 then
        (let joker = cards ! nat joker_index;
             cards_without_joker = filter (\<lambda>card. \<not> is_joker card) cards in
         case biggest cards_without_joker of
           Inl e \<Rightarrow> Inl e
         | Inr bigger \<Rightarrow>
             if card_value joker > card_value bigger then to_delegate cards (nat joker_index)
             else (case index_of cards bigger of
                     Inl e \<Rightarrow> Inl e
                   | Inr bigger_index \<Rightarrow>
                       (case to_delegate cards bigger_index of
                          Inl e \<Rightarrow> Inl e
                        | Inr cards1 \<Rightarrow>
                            swap_items (length cards1 - 1) (nat joker_index) cards1)))
      else biggest_to_delegate cards)"

subsection \<open>Concrete cards\<close>

definition plain :: "Suit \<Rightarrow> nat \<Rightarrow> bool \<Rightarrow> Card" where
  "plain s v opn =
     \<lparr>card_suit = Some s, card_colored = (s = DIAMOND \<or> s = HEART),
      card_rank = Rank v, card_value = int v, card_open = opn\<rparr>"

definition joker_card :: "bool \<Rightarrow> int \<Rightarrow> bool \<Rightarrow> Card" where
  "joker_card col v opn =
     \<lparr>card_suit = None, card_colored = col, card_rank = JOKER,
      card_value = v, card_open = opn\<rparr>"

text \<open>
  The value that \<open>NextBiggest.apply\<close> computes from the values of the two cards
  that are not the joker (its \<open>if\<close>/\<open>elif\<close> chain on \<open>biggest\<close> and \<open>smallest\<close>).
\<close>

definition next_biggest_value :: "int \<Rightarrow> int \<Rightarrow> int" where
  "next_biggest_value x y =
     (if max x y = 1 then 1 else if max x y = 2 then 3 - min x y
      else if min x y = max x y - 1 then max x y - 2 else max x y - 1)"

definition deck_5_9 :: "Card list" where
  "deck_5_9 = [plain HEART 9 False, joker_card True 0 False, plain DIAMOND 5 False]"

definition deck_7_8 :: "Card list" where
  "deck_7_8 = [joker_card True 0 False, plain HEART 7 False, plain DIAMOND 8 False]"

definition deck_joker_in_front :: "Card list" where
  "deck_joker_in_front = [joker_card True 7 False, plain HEART 7 False, plain DIAMOND 3 False]"

subsection \<open>Python list indexing\<close>

text \<open>\<open>xs[i]\<close> for an integer \<open>i\<close>: negative indices count from the end.\<close>

definition py_index :: "nat \<Rightarrow> int \<Rightarrow> error + nat" where
  "py_index n i =
     (if 0 \<le> i \<and> i < int n then Inr (nat i)
      else if - int n \<le> i \<and> i < 0 then Inr (nat (int n + i))
      else Inl IndexError)"

definition py_getitem :: "'a list \<Rightarrow> int \<Rightarrow> error + 'a" where
  "py_getitem xs i = (case py_index (length xs) i of Inl e \<Rightarrow> Inl e | Inr k \<Rightarrow> Inr (xs ! k))"

subsection \<open>Deck\<close>

datatype DeckState = UNDISCLOSED | IN_DUEL | FINISHED

record Deck =
  deck_state :: DeckState
  deck_cards :: "Card list"
  deck_index :: nat
  opponent_deck_index :: "nat option"
  card_to_open_index :: "nat option"

definition is_undisclosed :: "Deck \<Rightarrow> bool" where
  "is_undisclosed d = (deck_state d = UNDISCLOSED)"

definition is_in_duel :: "Deck \<Rightarrow> bool" where
  "is_in_duel d = (deck_state d = IN_DUEL)"

definition finish :: "Deck \<Rightarrow> Deck" where
  "finish d = d\<lparr>deck_state := FINISHED\<rparr>"


text \<open>\<open>sum(card._value for card in deck)\<close>.\<close>

definition sum_values :: "Card list \<Rightarrow> int" where
  "sum_values cards = sum_list (map card_value cards)"

subsection \<open>Defense deck choice: StatsConsideredBiggest\<close>

definition StatsConsideredBiggest_apply :: "Constants \<Rightarrow> Deck list \<Rightarrow> int \<Rightarrow> int \<Rightarrow> error + Deck" where
  "StatsConsideredBiggest_apply c decks_opponent points_me num_shout_die_opponent =
     (let undisclosed_decks = filter is_undisclosed decks_opponent;
          remaining_die_opponent = MAX_DIE c - num_shout_die_opponent;
          remaining_points_me = REQUIRED_POINTS c - points_me;
          index = remaining_die_opponent + remaining_points_me - 1
      in py_getitem undisclosed_decks index)"

text \<open>The sibling strategy \<open>SmallestDefenseDeck\<close>: \<open>min(..., key=lambda x: x.index)\<close>.\<close>

fun min_by_index :: "Deck list \<Rightarrow> error + Deck" where
  "min_by_index [] = Inl ValueError"
| "min_by_index (d # ds) =
     Inr (foldl (\<lambda>best x. if deck_index x < deck_index best then x else best) d ds)"

definition SmallestDefenseDeck_apply :: "Deck list \<Rightarrow> error + Deck" where
  "SmallestDefenseDeck_apply decks_opponent = min_by_index (filter is_undisclosed decks_opponent)"

subsection \<open>Player, Duel, Game\<close>

text \<open>
  The two players are compared by object identity in the source; they are named here
  by the side they play. A player's \<open>deck_in_duel\<close> is a reference to one of the
  player's own decks and is modelled as the position of that deck in \<open>decks\<close>.
  Names, key settings, piles, time stamps and the bound strategy classes play no part
  in the functions modelled and are left out.
\<close>

datatype PlayerId = PLAYER_RED | PLAYER_BLACK

record Player =
  deck_in_duel_index :: "nat option"
  deck_in_duel :: "nat option"
  points :: int
  num_shout_die :: int
  num_shout_done :: int
  num_shout_draw :: int
  decks :: "Deck list"
  recent_action :: "Action option"

datatype DuelState = UNSTARTED | ONGOING | DIED | DRAWN | DUEL_FINISHED
  | ABORTED_BY_CORRECT_DONE | ABORTED_BY_WRONG_CHOICE

datatype GameResult = GAME_DONE | GAME_FINISHED

datatype Duration = BEFORE_DECK_CHOICE | AFTER_DECK_CHOICE | BEFORE_ACTION | ACTION
  | FINAL_ACTION | BEFORE_CARD_OPEN | AFTER_DUEL_ENDS | AFTER_GAME_ENDS

text \<open>
  Modelled from the spec: the numeric codes of \<open>constants.DuelState\<close> are absent.
  \<open>Duel.end\<close> accepts the codes 3..10; section 4.4 names the states a duel can end
  in (DIED, DRAWN, FINISHED and the two ABORTED states), and these are taken to be
  the accepted codes, UNSTARTED and ONGOING the rejected ones.
\<close>

definition is_end_code :: "DuelState \<Rightarrow> bool" where
  "is_end_code s = (s \<noteq> UNSTARTED \<and> s \<noteq> ONGOING)"

record Duel =
  duel_index :: nat
  duel_round :: int
  duel_over :: bool
  duel_winner :: "PlayerId option"
  duel_loser :: "PlayerId option"
  duel_state :: DuelState
  offense :: PlayerId
  defense :: PlayerId

text \<open>\<open>Duel.__init__\<close> as \<open>Game.__init__\<close> calls it: the roles follow the parity of the index.\<close>

definition Duel_init :: "nat \<Rightarrow> Duel" where
  "Duel_init i =
     \<lparr>duel_index = i, duel_round = 1, duel_over = False, duel_winner = None,
      duel_loser = None, duel_state = UNSTARTED,
      offense = (if i mod 2 = 0 then PLAYER_RED else PLAYER_BLACK),
      defense = (if i mod 2 = 0 then PLAYER_BLACK else PLAYER_RED)\<rparr>"

definition start :: "Duel \<Rightarrow> Duel" where
  "start d = d\<lparr>duel_state := ONGOING\<rparr>"


record Game =
  player_red :: Player
  player_black :: Player
  game_over :: bool
  game_winner :: "PlayerId option"
  game_loser :: "PlayerId option"
  game_result :: "GameResult option"
  duel_ongoing :: Duel

fun player :: "Game \<Rightarrow> PlayerId \<Rightarrow> Player" where
  "player g PLAYER_RED = player_red g"
| "player g PLAYER_BLACK = player_black g"

fun update_player :: "PlayerId \<Rightarrow> (Player \<Rightarrow> Player) \<Rightarrow> Game \<Rightarrow> Game" where
  "update_player PLAYER_RED f g = g\<lparr>player_red := f (player_red g)\<rparr>"
| "update_player PLAYER_BLACK f g = g\<lparr>player_black := f (player_black g)\<rparr>"

subsection \<open>Player operations\<close>

definition valid_actions :: "Constants \<Rightarrow> Player \<Rightarrow> int \<Rightarrow> error + Action list" where
  "valid_actions c p rnd =
     (if rnd = 1 then
        Inr ([DONE, DARE] @ (if num_shout_die p < MAX_DIE c then [DIE] else []))
      else if rnd = 2 then
        Inr ([DONE, DARE] @ (if num_shout_die p < MAX_DIE c then [DIE] else []))
      else if rnd = 3 then
        Inr ([DONE, IDLE] @ (if num_shout_draw p < MAX_DRAW c then [DRAW] else []))
      else Inl ValueError)"

definition undisclosed_decks :: "Player \<Rightarrow> Deck list" where
  "undisclosed_decks p = filter is_undisclosed (decks p)"

text \<open>
  \<open>ComputerPlayer.disclosed_values\<close>: the set of values of the open cards of the
  decks that are not undisclosed, as a list without repetitions.
\<close>

definition disclosed_values :: "Deck list \<Rightarrow> int list" where
  "disclosed_values ds =
     remdups (concat (map (\<lambda>deck. if \<not> is_undisclosed deck
                                    then map card_value (filter card_open (deck_cards deck))
                                    else []) ds))"

definition undisclosed_values :: "Deck list \<Rightarrow> int list" where
  "undisclosed_values ds = filter (\<lambda>v. v \<notin> set (disclosed_values ds)) Rank_values"

definition is_done :: "Player \<Rightarrow> bool" where
  "is_done p = (length (disclosed_values (decks p)) = length Rank_values)"




subsection \<open>Duel operations\<close>

definition is_drawn :: "Game \<Rightarrow> error + bool" where
  "is_drawn g =
     (let d = duel_ongoing g in
      case (deck_in_duel (player g (offense d)), deck_in_duel (player g (defense d))) of
        (Some i, Some j) \<Rightarrow>
          Inr (sum_values (deck_cards (decks (player g (offense d)) ! i))
               = sum_values (deck_cards (decks (player g (defense d)) ! j)))
      | _ \<Rightarrow> Inl TypeError)"

text \<open>
  The closing loop of \<open>Duel.end\<close> for one player: the committed deck is finished,
  all its cards are opened and the commitment is cleared.
\<close>

definition close_deck_in_duel :: "Player \<Rightarrow> Player" where
  "close_deck_in_duel p =
     (case deck_in_duel p of
        None \<Rightarrow> p
      | Some i \<Rightarrow>
          p\<lparr>decks := (decks p)[i := (finish (decks p ! i))
                                     \<lparr>deck_cards := map open_up (deck_cards (decks p ! i))\<rparr>],
            deck_in_duel := None\<rparr>)"

definition close_decks :: "Game \<Rightarrow> Game" where
  "close_decks g =
     update_player (defense (duel_ongoing g)) close_deck_in_duel
       (update_player (offense (duel_ongoing g)) close_deck_in_duel g)"

definition Duel_end :: "DuelState \<Rightarrow> PlayerId option \<Rightarrow> PlayerId option \<Rightarrow> Game \<Rightarrow> error + Game" where
  "Duel_end state winner loser g =
     (if \<not> is_end_code state then Inl ValueError
      else
        (let d = (duel_ongoing g)\<lparr>duel_over := True, duel_state := state,
                                   duel_winner := winner, duel_loser := loser\<rparr>
         in if winner = None \<and> loser = None then
              (if state \<noteq> DIED \<and> state \<noteq> ABORTED_BY_CORRECT_DONE
                  \<and> state \<noteq> ABORTED_BY_WRONG_CHOICE
               then Inl ValueError
               else Inr (close_decks (g\<lparr>duel_ongoing := d\<rparr>)))
            else
              (let d1 = (if winner = None then
                           (if loser = Some (offense d) then d\<lparr>duel_winner := Some (defense d)\<rparr>
                            else d\<lparr>duel_winner := Some (offense d)\<rparr>)
                         else if loser = None then
                           (if winner = Some (offense d) then d\<lparr>duel_loser := Some (offense d)\<rparr>
                            else d\<lparr>duel_loser := Some (defense d)\<rparr>)
                         else d)
               in case duel_winner d1 of
                    None \<Rightarrow> Inl TypeError
                  | Some w \<Rightarrow>
                      Inr (close_decks
                             (update_player w (\<lambda>p. p\<lparr>points := points p + 1\<rparr>)
                                (g\<lparr>duel_ongoing := d1\<rparr>))))))"


subsection \<open>Game operations\<close>

definition Game_end :: "GameResult \<Rightarrow> PlayerId option \<Rightarrow> PlayerId option \<Rightarrow> Game \<Rightarrow> Game" where
  "Game_end result winner loser g =
     (let g1 = g\<lparr>game_over := True, game_result := Some result,
                 game_winner := winner, game_loser := loser\<rparr>
      in if winner = None then
           (if loser = Some PLAYER_BLACK then g1\<lparr>game_winner := Some PLAYER_RED\<rparr>
            else g1\<lparr>game_winner := Some PLAYER_BLACK\<rparr>)
         else if loser = None then
           (if winner = Some PLAYER_BLACK then g1\<lparr>game_loser := Some PLAYER_RED\<rparr>
            else g1\<lparr>game_loser := Some PLAYER_BLACK\<rparr>)
         else g1)"







subsection \<open>Shout resolution\<close>

text \<open>A shout: the player and the declared action (\<open>None\<close> when a strategy declines).\<close>

type_synonym Shout = "PlayerId \<times> Action option"

text \<open>
  The first loop of \<open>process_shout\<close>: only the first shout of each player is heard,
  and the loop breaks once both have been heard.
\<close>

fun hear :: "Shout list \<Rightarrow> bool \<Rightarrow> bool \<Rightarrow> Game \<Rightarrow> Game" where
  "hear [] red_shout_heard black_shout_heard g = g"
| "hear ((p, a) # shouts) red_shout_heard black_shout_heard g =
     (if \<not> red_shout_heard \<and> p = PLAYER_RED then
        (let g1 = g\<lparr>player_red := (player_red g)\<lparr>recent_action := a\<rparr>\<rparr> in
         if black_shout_heard then g1 else hear shouts True black_shout_heard g1)
      else if \<not> black_shout_heard \<and> p = PLAYER_BLACK then
        (let g1 = g\<lparr>player_black := (player_black g)\<lparr>recent_action := a\<rparr>\<rparr> in
         if red_shout_heard then g1 else hear shouts red_shout_heard True g1)
      else if red_shout_heard \<and> black_shout_heard then g
      else hear shouts red_shout_heard black_shout_heard g)"

text \<open>
  A \<open>for player in duel.players\<close> loop whose body may return from \<open>process_shout\<close>:
  the body yields the new state and \<open>Some\<close> duration when it returns, \<open>None\<close> when
  the loop goes on.
\<close>

fun for_players ::
  "(PlayerId \<Rightarrow> Game \<Rightarrow> error + (Game \<times> Duration option)) \<Rightarrow> PlayerId list \<Rightarrow> Game
   \<Rightarrow> error + (Game \<times> Duration option)" where
  "for_players body [] g = Inr (g, None)"
| "for_players body (p # ps) g =
     (case body p g of
        Inl e \<Rightarrow> Inl e
      | Inr (g1, Some r) \<Rightarrow> Inr (g1, Some r)
      | Inr (g1, None) \<Rightarrow> for_players body ps g1)"

definition done_body :: "Constants \<Rightarrow> int \<Rightarrow> PlayerId \<Rightarrow> Game \<Rightarrow> error + (Game \<times> Duration option)" where
  "done_body c rnd p g =
     (case valid_actions c (player g p) rnd of
        Inl e \<Rightarrow> Inl e
      | Inr valid \<Rightarrow>
          if DONE \<in> set valid \<and> recent_action (player g p) = Some DONE then
            (let g1 = update_player p (\<lambda>q. q\<lparr>num_shout_done := num_shout_done q + 1\<rparr>) g in
             if is_done (player g1 p) then
               (case Duel_end ABORTED_BY_CORRECT_DONE None None g1 of
                  Inl e \<Rightarrow> Inl e
                | Inr g2 \<Rightarrow> Inr (Game_end GAME_DONE (Some p) None g2, Some AFTER_GAME_ENDS))
             else Inr (g1, None))
          else Inr (g, None))"

definition die_body :: "Constants \<Rightarrow> int \<Rightarrow> PlayerId \<Rightarrow> Game \<Rightarrow> error + (Game \<times> Duration option)" where
  "die_body c rnd p g =
     (case valid_actions c (player g p) rnd of
        Inl e \<Rightarrow> Inl e
      | Inr valid \<Rightarrow>
          if DIE \<in> set valid \<and> recent_action (player g p) = Some DIE then
            (let g1 = update_player p (\<lambda>q. q\<lparr>num_shout_die := num_shout_die q + 1\<rparr>) g in
             case Duel_end DIED None None g1 of
               Inl e \<Rightarrow> Inl e
             | Inr g2 \<Rightarrow> Inr (g2, Some AFTER_DUEL_ENDS))
          else Inr (g, None))"

text \<open>
  After a duel has ended with a winner: \<open>if duel.winner.points == REQUIRED_POINTS\<close>
  the game ends as FINISHED with that winner.
\<close>

definition end_if_required_points :: "Constants \<Rightarrow> Game \<Rightarrow> error + (Game \<times> Duration)" where
  "end_if_required_points c g =
     (case duel_winner (duel_ongoing g) of
        None \<Rightarrow> Inl TypeError
      | Some w \<Rightarrow>
          if points (player g w) = REQUIRED_POINTS c
          then Inr (Game_end GAME_FINISHED (Some w) None g, AFTER_GAME_ENDS)
          else Inr (g, AFTER_DUEL_ENDS))"

definition draw_body :: "Constants \<Rightarrow> int \<Rightarrow> PlayerId \<Rightarrow> Game \<Rightarrow> error + (Game \<times> Duration option)" where
  "draw_body c rnd p g =
     (case valid_actions c (player g p) rnd of
        Inl e \<Rightarrow> Inl e
      | Inr valid \<Rightarrow>
          if DRAW \<in> set valid \<and> recent_action (player g p) = Some DRAW then
            (let g1 = update_player p (\<lambda>q. q\<lparr>num_shout_draw := num_shout_draw q + 1\<rparr>) g in
             case is_drawn g1 of
               Inl e \<Rightarrow> Inl e
             | Inr True \<Rightarrow>
                 (case Duel_end DRAWN (Some p) None g1 of
                    Inl e \<Rightarrow> Inl e
                  | Inr g2 \<Rightarrow>
                      (case end_if_required_points c g2 of
                         Inl e \<Rightarrow> Inl e
                       | Inr (g3, duration) \<Rightarrow> Inr (g3, Some duration)))
             | Inr False \<Rightarrow> Inr (g1, None))
          else Inr (g, None))"

text \<open>The part of \<open>process_shout\<close> after the three loops.\<close>

definition fallthrough :: "Constants \<Rightarrow> int \<Rightarrow> Game \<Rightarrow> error + (Game \<times> Duration)" where
  "fallthrough c rnd g =
     (let duel = duel_ongoing g in
      if rnd = 1 \<or> rnd = 2 then Inr (g, BEFORE_CARD_OPEN)
      else if rnd = 3 then
        (case (deck_in_duel (player g (offense duel)), deck_in_duel (player g (defense duel))) of
           (Some i, Some j) \<Rightarrow>
             (let sum_offense = sum_values (deck_cards (decks (player g (offense duel)) ! i));
                  sum_defense = sum_values (deck_cards (decks (player g (defense duel)) ! j));
                  ended = (if sum_offense > sum_defense
                           then Duel_end DUEL_FINISHED (Some (offense duel)) None g
                           else if sum_offense < sum_defense
                           then Duel_end DUEL_FINISHED (Some (defense duel)) None g
                           else Duel_end DRAWN (Some (defense duel)) None g)
              in case ended of
                   Inl e \<Rightarrow> Inl e
                 | Inr g1 \<Rightarrow> end_if_required_points c g1)
         | _ \<Rightarrow> Inl TypeError)
      else Inl ValueError)"

text \<open>What \<open>process_shout\<close> does once the DONE loop has run through without returning.\<close>

definition lower_tiers ::
  "Constants \<Rightarrow> int \<Rightarrow> PlayerId list \<Rightarrow> Game \<Rightarrow> error + (Game \<times> Duration)" where
  "lower_tiers c rnd players g1 =
     (case for_players (die_body c rnd) players g1 of
        Inl e \<Rightarrow> Inl e
      | Inr (g2, Some r) \<Rightarrow> Inr (g2, r)
      | Inr (g2, None) \<Rightarrow>
          (case for_players (draw_body c rnd) players g2 of
             Inl e \<Rightarrow> Inl e
           | Inr (g3, Some r) \<Rightarrow> Inr (g3, r)
           | Inr (g3, None) \<Rightarrow> fallthrough c rnd g3))"

definition resolve :: "Constants \<Rightarrow> Game \<Rightarrow> error + (Game \<times> Duration)" where
  "resolve c g =
     (let duel = duel_ongoing g; rnd = duel_round duel;
          players = [offense duel, defense duel]
      in case for_players (done_body c rnd) players g of
           Inl e \<Rightarrow> Inl e
         | Inr (g1, Some r) \<Rightarrow> Inr (g1, r)
         | Inr (g1, None) \<Rightarrow> lower_tiers c rnd players g1)"

definition process_shout :: "Constants \<Rightarrow> Shout list \<Rightarrow> Game \<Rightarrow> error + (Game \<times> Duration)" where
  "process_shout c shouts g = resolve c (hear shouts False False g)"

subsection \<open>Concrete games\<close>

text \<open>
  A red pile and a black pile dealt into nine decks each, delegates first and decks
  in ascending order of the delegate's value. Red deck 0 is what SameAsMax and
  JokerLast make of a deal (joker, 7 of diamonds, ace of diamonds); black's joker
  drew the value 3.
\<close>

definition red_deal :: "Card list list" where
  "red_deal =
     [[plain DIAMOND 1 False, joker_card True 7 False, plain DIAMOND 7 False],
      [plain DIAMOND 3 False, plain HEART 1 False, plain DIAMOND 2 False],
      [plain DIAMOND 4 False, plain HEART 2 False, plain HEART 3 False],
      [plain DIAMOND 5 False, plain HEART 4 False, plain HEART 5 False],
      [plain HEART 7 False, plain DIAMOND 6 False, plain HEART 6 False],
      [plain DIAMOND 9 False, plain DIAMOND 8 False, plain HEART 8 False],
      [plain DIAMOND 10 False, plain HEART 9 False, plain HEART 10 False],
      [plain DIAMOND 12 False, plain DIAMOND 11 False, plain HEART 11 False],
      [plain DIAMOND 13 False, plain HEART 12 False, plain HEART 13 False]]"

definition black_deal :: "Card list list" where
  "black_deal =
     [[plain CLUB 4 False, plain CLUB 1 False, plain SPADE 1 False],
      [plain SPADE 4 False, plain CLUB 2 False, plain SPADE 2 False],
      [plain CLUB 6 False, plain CLUB 3 False, plain SPADE 3 False],
      [plain SPADE 6 False, plain CLUB 5 False, plain SPADE 5 False],
      [plain CLUB 8 False, plain CLUB 7 False, plain SPADE 7 False],
      [plain SPADE 10 False, plain SPADE 8 False, plain CLUB 9 False],
      [plain CLUB 10 False, plain SPADE 9 False, joker_card False 3 False],
      [plain CLUB 12 False, plain CLUB 11 False, plain SPADE 11 False],
      [plain CLUB 13 False, plain SPADE 13 False, plain SPADE 12 False]]"

text \<open>
  The decks of a deal in play: for each deck its state, the number of its cards that
  are open (from the delegate on) and the deck it met, if any.
\<close>

definition opened :: "nat \<Rightarrow> Card list \<Rightarrow> Card list" where
  "opened n cards = map open_up (take n cards) @ drop n cards"

fun decks_in_play :: "nat \<Rightarrow> Card list list \<Rightarrow> (DeckState \<times> nat \<times> nat option) list \<Rightarrow> Deck list" where
  "decks_in_play i (cards # deal) ((st, n, opp) # rest) =
     \<lparr>deck_state = st, deck_cards = opened n cards, deck_index = i,
      opponent_deck_index = opp,
      card_to_open_index = (if st = IN_DUEL \<and> n = 2 then Some 2 else None)\<rparr>
     # decks_in_play (Suc i) deal rest"
| "decks_in_play i deal rest = []"

definition played :: "nat \<Rightarrow> DeckState \<times> nat \<times> nat option" where
  "played opp = (FINISHED, 3, Some opp)"

definition fresh :: "DeckState \<times> nat \<times> nat option" where
  "fresh = (UNDISCLOSED, 1, None)"

definition fighting :: "nat \<Rightarrow> nat \<Rightarrow> DeckState \<times> nat \<times> nat option" where
  "fighting n opp = (IN_DUEL, n, Some opp)"

definition constants_3_1_5 :: Constants where
  "constants_3_1_5 = \<lparr>MAX_DIE = 3, MAX_DRAW = 1, REQUIRED_POINTS = 5\<rparr>"

text \<open>Red's decks before the eighth duel: seven decks played, decks 7 and 8 left.\<close>

definition red_decks_before_duel_8 :: "Deck list" where
  "red_decks_before_duel_8 =
     decks_in_play 0 red_deal
       [played 0, played 1, played 2, played 3, played 4, played 5, played 6, fresh, fresh]"

subsection \<open>State updates named for the proofs\<close>

text \<open>
  The counter increments and the field writes of \<open>Duel.end\<close>, named so that the
  states reached by shout resolution can be written down.
\<close>

definition count_done :: "PlayerId \<Rightarrow> Game \<Rightarrow> Game" where
  "count_done p g = update_player p (\<lambda>q. q\<lparr>num_shout_done := num_shout_done q + 1\<rparr>) g"

definition count_die :: "PlayerId \<Rightarrow> Game \<Rightarrow> Game" where
  "count_die p g = update_player p (\<lambda>q. q\<lparr>num_shout_die := num_shout_die q + 1\<rparr>) g"

definition count_draw :: "PlayerId \<Rightarrow> Game \<Rightarrow> Game" where
  "count_draw p g = update_player p (\<lambda>q. q\<lparr>num_shout_draw := num_shout_draw q + 1\<rparr>) g"

definition ended :: "DuelState \<Rightarrow> PlayerId option \<Rightarrow> PlayerId option \<Rightarrow> Game \<Rightarrow> Game" where
  "ended st w l g = g\<lparr>duel_ongoing := (duel_ongoing g)\<lparr>duel_over := True, duel_state := st,
                                   duel_winner := w, duel_loser := l\<rparr>\<rparr>"

text \<open>
  The ninth duel (index 8, red on offense) with 3/1/5 as the limits: eight duels
  gave each player 2 points and 2 dies, deck \<open>i\<close> met deck \<open>i\<close>, and both players
  have committed their deck 8, of which \<open>n\<close> cards are open; the round counter
  stands at \<open>n\<close>. Every rank value 1..13 is then open among red's decks and among
  black's.
\<close>

definition last_duel :: "nat \<Rightarrow> Game" where
  "last_duel n =
     \<lparr>player_red =
        \<lparr>deck_in_duel_index = Some 8, deck_in_duel = Some 8, points = 2,
         num_shout_die = 2, num_shout_done = 0, num_shout_draw = 0,
         decks = decks_in_play 0 red_deal
                   [played 0, played 1, played 2, played 3, played 4, played 5, played 6,
                    played 7, fighting n 8],
         recent_action = None\<rparr>,
      player_black =
        \<lparr>deck_in_duel_index = Some 8, deck_in_duel = Some 8, points = 2,
         num_shout_die = 2, num_shout_done = 0, num_shout_draw = 0,
         decks = decks_in_play 0 black_deal
                   [played 0, played 1, played 2, played 3, played 4, played 5, played 6,
                    played 7, fighting n 8],
         recent_action = None\<rparr>,
      game_over = False, game_winner = None, game_loser = None, game_result = None,
      duel_ongoing = (start (Duel_init 8))\<lparr>duel_round := int n\<rparr>\<rparr>"

text \<open>What a call of \<open>process_shout\<close> leaves behind, field by field.\<close>

record Outcome =
  out_duel_state :: DuelState
  out_duel_winner :: "PlayerId option"
  out_game_over :: bool
  out_game_winner :: "PlayerId option"
  out_game_result :: "GameResult option"
  out_round :: int
  out_points :: "int \<times> int"
  out_dies :: "int \<times> int"
  out_dones :: "int \<times> int"
  out_draws :: "int \<times> int"

definition outcome :: "Game \<Rightarrow> Outcome" where
  "outcome g =
     \<lparr>out_duel_state = duel_state (duel_ongoing g),
      out_duel_winner = duel_winner (duel_ongoing g),
      out_game_over = game_over g,
      out_game_winner = game_winner g,
      out_game_result = game_result g,
      out_round = duel_round (duel_ongoing g),
      out_points = (points (player_red g), points (player_black g)),
      out_dies = (num_shout_die (player_red g), num_shout_die (player_black g)),
      out_dones = (num_shout_done (player_red g), num_shout_done (player_black g)),
      out_draws = (num_shout_draw (player_red g), num_shout_draw (player_black g))\<rparr>"

fun outcome_of :: "error + (Game \<times> Duration) \<Rightarrow> error + (Outcome \<times> Duration)" where
  "outcome_of (Inl e) = Inl e"
| "outcome_of (Inr (g, d)) = Inr (outcome g, d)"

definition won_by_done :: "PlayerId \<Rightarrow> Game \<Rightarrow> Game" where
  "won_by_done p g =
     Game_end GAME_DONE (Some p) None
       (close_decks (ended ABORTED_BY_CORRECT_DONE None None (count_done p g)))"

definition died_by :: "PlayerId \<Rightarrow> Game \<Rightarrow> Game" where
  "died_by p g = close_decks (ended DIED None None (count_die p g))"

definition award :: "DuelState \<Rightarrow> PlayerId \<Rightarrow> Game \<Rightarrow> Game" where
  "award st w g =
     close_decks
       (update_player w (\<lambda>p. p\<lparr>points := points p + 1\<rparr>)
          (ended st (Some w)
             (Some (if w = offense (duel_ongoing g) then offense (duel_ongoing g)
                    else defense (duel_ongoing g))) g))"

definition awarded :: "Constants \<Rightarrow> DuelState \<Rightarrow> PlayerId \<Rightarrow> Game \<Rightarrow> Game \<times> Duration" where
  "awarded c st w g =
     (if points (player g w) + 1 = REQUIRED_POINTS c
      then (Game_end GAME_FINISHED (Some w) None (award st w g), AFTER_GAME_ENDS)
      else (award st w g, AFTER_DUEL_ENDS))"

definition count_done_if :: "PlayerId \<Rightarrow> Game \<Rightarrow> Game" where
  "count_done_if p g = (if recent_action (player g p) = Some DONE then count_done p g else g)"

definition draw_valid :: "Constants \<Rightarrow> int \<Rightarrow> Game \<Rightarrow> PlayerId \<Rightarrow> bool" where
  "draw_valid c rnd g p =
     (rnd = 3 \<and> num_shout_draw (player g p) < MAX_DRAW c \<and> recent_action (player g p) = Some DRAW)"

definition die_valid :: "Constants \<Rightarrow> int \<Rightarrow> Game \<Rightarrow> PlayerId \<Rightarrow> bool" where
  "die_valid c rnd g p =
     ((rnd = 1 \<or> rnd = 2) \<and> num_shout_die (player g p) < MAX_DIE c
      \<and> recent_action (player g p) = Some DIE)"

definition count_draw_if :: "Constants \<Rightarrow> int \<Rightarrow> PlayerId \<Rightarrow> Game \<Rightarrow> Game" where
  "count_draw_if c rnd p g = (if draw_valid c rnd g p then count_draw p g else g)"

text \<open>
  Shout priority in the words of the specification (section 4.5): the declarations
  of a round are looked at in the order DONE, DIE, DRAW and, within a tier, offense
  before defense. A declaration is made when the player's action belongs to the tier
  and is allowed in this round; it qualifies when it ends the round (a DONE that is
  correct, any DIE, a DRAW on equal sums). The first qualifying declaration decides
  the round; the declarations ahead of it are only counted; those behind it are not
  processed. All conditions are read off the state as it was when the shouts had
  been heard.
\<close>

datatype Tier = DONE_TIER | DIE_TIER | DRAW_TIER

definition tier_order :: "Duel \<Rightarrow> (Tier \<times> PlayerId) list" where
  "tier_order d =
     [(DONE_TIER, offense d), (DONE_TIER, defense d),
      (DIE_TIER, offense d), (DIE_TIER, defense d),
      (DRAW_TIER, offense d), (DRAW_TIER, defense d)]"

fun declared :: "Constants \<Rightarrow> Game \<Rightarrow> Tier \<times> PlayerId \<Rightarrow> bool" where
  "declared c g (DONE_TIER, p) = (recent_action (player g p) = Some DONE)"
| "declared c g (DIE_TIER, p) = die_valid c (duel_round (duel_ongoing g)) g p"
| "declared c g (DRAW_TIER, p) = draw_valid c (duel_round (duel_ongoing g)) g p"

fun qualifies :: "Constants \<Rightarrow> Game \<Rightarrow> Tier \<times> PlayerId \<Rightarrow> bool" where
  "qualifies c g (DONE_TIER, p) = (declared c g (DONE_TIER, p) \<and> is_done (player g p))"
| "qualifies c g (DIE_TIER, p) = declared c g (DIE_TIER, p)"
| "qualifies c g (DRAW_TIER, p) = (declared c g (DRAW_TIER, p) \<and> is_drawn g = Inr True)"

fun count_declaration :: "Tier \<times> PlayerId \<Rightarrow> Game \<Rightarrow> Game" where
  "count_declaration (DONE_TIER, p) g = count_done p g"
| "count_declaration (DIE_TIER, p) g = count_die p g"
| "count_declaration (DRAW_TIER, p) g = count_draw p g"

definition count_declared :: "Constants \<Rightarrow> Game \<Rightarrow> (Tier \<times> PlayerId) list \<Rightarrow> Game" where
  "count_declared c h passed =
     foldl (\<lambda>g x. if declared c h x then count_declaration x g else g) h passed"

fun conclude :: "Constants \<Rightarrow> Tier \<times> PlayerId \<Rightarrow> Game \<Rightarrow> error + (Game \<times> Duration)" where
  "conclude c (DONE_TIER, p) g =
     (case Duel_end ABORTED_BY_CORRECT_DONE None None (count_done p g) of
        Inl e \<Rightarrow> Inl e
      | Inr g1 \<Rightarrow> Inr (Game_end GAME_DONE (Some p) None g1, AFTER_GAME_ENDS))"
| "conclude c (DIE_TIER, p) g =
     (case Duel_end DIED None None (count_die p g) of
        Inl e \<Rightarrow> Inl e
      | Inr g1 \<Rightarrow> Inr (g1, AFTER_DUEL_ENDS))"
| "conclude c (DRAW_TIER, p) g =
     (case Duel_end DRAWN (Some p) None (count_draw p g) of
        Inl e \<Rightarrow> Inl e
      | Inr g1 \<Rightarrow> end_if_required_points c g1)"

definition resolve_by_priority :: "Constants \<Rightarrow> Game \<Rightarrow> error + (Game \<times> Duration)" where
  "resolve_by_priority c h =
     (let order = tier_order (duel_ongoing h);
          passed = takeWhile (\<lambda>x. \<not> qualifies c h x) order;
          g1 = count_declared c h passed
      in case find (qualifies c h) order of
           Some x \<Rightarrow> conclude c x g1
         | None \<Rightarrow> fallthrough c (duel_round (duel_ongoing h)) g1)"

definition constants_3_1_3 :: Constants where
  "constants_3_1_3 = \<lparr>MAX_DIE = 3, MAX_DRAW = 1, REQUIRED_POINTS = 3\<rparr>"

text \<open>
  The criterion of a correct DONE, in words: every rank value 1..13 is the value of an
  open card of one of the player's decks that have been sent to a duel (a deck in duel
  or finished). The open delegates of the decks that are still undisclosed do not
  count. The source instead counts the distinct values it collects from those decks
  and compares the count with the number of ranks; the two agree when every card
  value lies in 1..13.
\<close>

definition full_rank_set_disclosed :: "Player \<Rightarrow> bool" where
  "full_rank_set_disclosed p =
     (\<forall>v \<in> set Rank_values. \<exists>deck \<in> set (decks p).
        \<not> is_undisclosed deck \<and> (\<exists>c \<in> set (deck_cards deck). card_open c \<and> card_value c = v))"

text \<open>
  Modelled from the spec: the player ``has seen every possible rank value across
  their own decks'', read as every rank value 1..13 being the value of an open card of
  one of the player's decks, undisclosed decks and their open delegates included.
\<close>

definition every_rank_value_open :: "Player \<Rightarrow> bool" where
  "every_rank_value_open p =
     (\<forall>v \<in> set Rank_values. \<exists>deck \<in> set (decks p).
        \<exists>c \<in> set (deck_cards deck). card_open c \<and> card_value c = v)"

definition values_in_rank_range :: "Player \<Rightarrow> bool" where
  "values_in_rank_range p =
     list_all (\<lambda>deck. list_all (\<lambda>card. 1 \<le> card_value card \<and> card_value card \<le> 13)
                                (deck_cards deck)) (decks p)"

text \<open>
  The second duel (index 1, black on offense) at its first shout: black won the first
  duel with its deck 8 against red's deck 1; now black's deck 7 meets red's deck 0,
  two cards of each are open and the round counter stands at 2.
\<close>

definition second_duel :: Game where
  "second_duel =
     \<lparr>player_red =
        \<lparr>deck_in_duel_index = Some 0, deck_in_duel = Some 0, points = 0,
         num_shout_die = 0, num_shout_done = 0, num_shout_draw = 0,
         decks = decks_in_play 0 red_deal
                   [fighting 2 7, played 8, fresh, fresh, fresh, fresh, fresh, fresh, fresh],
         recent_action = None\<rparr>,
      player_black =
        \<lparr>deck_in_duel_index = Some 7, deck_in_duel = Some 7, points = 1,
         num_shout_die = 0, num_shout_done = 0, num_shout_draw = 0,
         decks = decks_in_play 0 black_deal
                   [fresh, fresh, fresh, fresh, fresh, fresh, fresh, fighting 2 0, played 1],
         recent_action = None\<rparr>,
      game_over = False, game_winner = None, game_loser = None, game_result = None,
      duel_ongoing = (start (Duel_init 1))\<lparr>duel_round := 2\<rparr>\<rparr>"

text \<open>
  The eighth duel (index 7, black on offense) at its first shout: seven duels gave
  each player 2 points, red 2 dies and black 1; deck 7 meets deck 7 with two cards of
  each open, and deck 8 of each player is still undisclosed, its delegate open. Red's
  only cards of value 13 are in its deck 8.
\<close>

definition eighth_duel :: Game where
  "eighth_duel =
     \<lparr>player_red =
        \<lparr>deck_in_duel_index = Some 7, deck_in_duel = Some 7, points = 2,
         num_shout_die = 2, num_shout_done = 0, num_shout_draw = 0,
         decks = decks_in_play 0 red_deal
                   [played 0, played 1, played 2, played 3, played 4, played 5, played 6,
                    fighting 2 7, fresh],
         recent_action = None\<rparr>,
      player_black =
        \<lparr>deck_in_duel_index = Some 7, deck_in_duel = Some 7, points = 2,
         num_shout_die = 1, num_shout_done = 0, num_shout_draw = 0,
         decks = decks_in_play 0 black_deal
                   [played 0, played 1, played 2, played 3, played 4, played 5, played 6,
                    fighting 2 7, fresh],
         recent_action = None\<rparr>,
      game_over = False, game_winner = None, game_loser = None, game_result = None,
      duel_ongoing = (start (Duel_init 7))\<lparr>duel_round := 2\<rparr>\<rparr>"





text \<open>
  \<open>RedPile()\<close> and \<open>BlackPile()\<close>: the joker first, then the two suits of the colour,
  each with its thirteen ranks; every card closed, the joker without a value.
\<close>

definition Suit_value :: "Suit \<Rightarrow> nat" where
  "Suit_value s = (case s of DIAMOND \<Rightarrow> 0 | CLUB \<Rightarrow> 1 | HEART \<Rightarrow> 2 | SPADE \<Rightarrow> 3)"

definition pile_of :: "bool \<Rightarrow> Card list" where
  "pile_of colored =
     \<lparr>card_suit = None, card_colored = colored, card_rank = JOKER, card_value = 0,
      card_open = False\<rparr>
     # concat (map (\<lambda>s. map (\<lambda>v. \<lparr>card_suit = Some s, card_colored = colored,
                                       card_rank = Rank v, card_value = int v,
                                       card_open = False\<rparr>) [1..<14])
                   (filter (\<lambda>s. (Suit_value s mod 2 = 0) = colored) [DIAMOND, CLUB, HEART, SPADE]))"

definition RedPile :: "Card list" where
  "RedPile = pile_of True"

definition BlackPile :: "Card list" where
  "BlackPile = pile_of False"

text \<open>\<open>UnopenedPile(cards)\<close>: a copy of the list, every card of it opened.\<close>

definition UnopenedPile :: "Card list \<Rightarrow> Card list" where
  "UnopenedPile cards = map open_up cards"

text \<open>\<open>try: pile.remove(card) except ValueError: pass\<close>.\<close>

fun remove_card :: "Card \<Rightarrow> Card list \<Rightarrow> Card list" where
  "remove_card c [] = []"
| "remove_card c (x # xs) = (if card_eq x c then xs else x # remove_card c xs)"

text \<open>\<open>itertools.combinations(xs, r)\<close> for \<open>r \<ge> 0\<close>, in its order.\<close>

fun combinations :: "'a list \<Rightarrow> nat \<Rightarrow> 'a list list" where
  "combinations xs 0 = [[]]"
| "combinations [] (Suc r) = []"
| "combinations (x # xs) (Suc r) = map ((#) x) (combinations xs r) @ combinations xs (Suc r)"

text \<open>
  The joker value strategy classes as values, and \<open>guess_joker_value\<close>. The random
  draw of its last branch is taken from a source \<open>randint n lo hi\<close>, the outcome of the
  \<open>n\<close>-th call of \<open>random.randint\<close> within one call of \<open>get_chances\<close>; the number of
  draws made so far is threaded through. \<open>random.randint(1, v)\<close> raises ValueError on
  an empty range.
\<close>

datatype JokerValueStrategy = Thirteen | SameAsMax | RandomNumber | NextBiggest

definition guess_joker_value ::
  "(nat \<Rightarrow> int \<Rightarrow> int \<Rightarrow> int) \<Rightarrow> nat \<Rightarrow> int \<Rightarrow> JokerValueStrategy \<Rightarrow> error + (int \<times> nat)" where
  "guess_joker_value randint n delegate_value joker_value_strategy =
     (if joker_value_strategy = Thirteen then Inr (13, n)
      else if joker_value_strategy = SameAsMax then Inr (delegate_value, n)
      else if joker_value_strategy = NextBiggest then Inr (delegate_value - 1, n)
      else if delegate_value < 1 then Inl ValueError
      else Inr (randint n 1 delegate_value, Suc n))"

text \<open>
  \<open>for card in cards: sum += guess or value\<close>, started from the sum of the open cards.
\<close>

fun guessed_sum ::
  "(nat \<Rightarrow> int \<Rightarrow> int \<Rightarrow> int) \<Rightarrow> int \<Rightarrow> JokerValueStrategy \<Rightarrow> Card list \<Rightarrow> int \<times> nat
   \<Rightarrow> error + (int \<times> nat)" where
  "guessed_sum randint delegate_value strategy [] (s, n) = Inr (s, n)"
| "guessed_sum randint delegate_value strategy (c # cards) (s, n) =
     (if is_joker c then
        (case guess_joker_value randint n delegate_value strategy of
           Inl e \<Rightarrow> Inl e
         | Inr (v, n1) \<Rightarrow> guessed_sum randint delegate_value strategy cards (s + v, n1))
      else guessed_sum randint delegate_value strategy cards (s + card_value c, n))"

text \<open>The tallies of the double loop over the candidate hands.\<close>

record Tally =
  num_win :: nat
  num_draw :: nat
  num_lose :: nat
  draws_made :: nat

record Side =
  current_sum :: int
  delegate_value :: int
  value_strategy :: JokerValueStrategy

fun against ::
  "(nat \<Rightarrow> int \<Rightarrow> int \<Rightarrow> int) \<Rightarrow> Side \<Rightarrow> Side \<Rightarrow> Card list \<Rightarrow> Card list list \<Rightarrow> Tally
   \<Rightarrow> error + Tally" where
  "against randint me opponent cards_me [] t = Inr t"
| "against randint me opponent cards_me (cards_opponent # rest) t =
     (case guessed_sum randint (delegate_value me) (value_strategy me) cards_me
             (current_sum me, draws_made t) of
        Inl e \<Rightarrow> Inl e
      | Inr (sum_me, n1) \<Rightarrow>
          (case guessed_sum randint (delegate_value opponent) (value_strategy opponent)
                  cards_opponent (current_sum opponent, n1) of
             Inl e \<Rightarrow> Inl e
           | Inr (sum_opponent, n2) \<Rightarrow>
               against randint me opponent cards_me rest
                 (if sum_me > sum_opponent
                  then t\<lparr>num_win := num_win t + 1, draws_made := n2\<rparr>
                  else if sum_me = sum_opponent
                  then t\<lparr>num_draw := num_draw t + 1, draws_made := n2\<rparr>
                  else t\<lparr>num_lose := num_lose t + 1, draws_made := n2\<rparr>)))"

fun tally_pairs ::
  "(nat \<Rightarrow> int \<Rightarrow> int \<Rightarrow> int) \<Rightarrow> Side \<Rightarrow> Side \<Rightarrow> Card list list \<Rightarrow> Card list list \<Rightarrow> Tally
   \<Rightarrow> error + Tally" where
  "tally_pairs randint me opponent [] candidates_opponent t = Inr t"
| "tally_pairs randint me opponent (cards_me # rest) candidates_opponent t =
     (case against randint me opponent cards_me candidates_opponent t of
        Inl e \<Rightarrow> Inl e
      | Inr t1 \<Rightarrow> tally_pairs randint me opponent rest candidates_opponent t1)"

text \<open>
  \<open>round(num / total, 3)\<close> on floating-point numbers. The true division of two
  Python integers yields the binary64 number nearest to the exact quotient, ties to
  the even significand: \<open>to_double\<close> computes that number as a rational, with 53
  significant bits from the binary exponent \<open>-1022\<close> on and the fixed quantum
  \<open>2 ^ -1074\<close> below it (the quotients of \<open>get_chances\<close> lie between 0 and 1, so
  they never overflow). \<open>round(x, 3)\<close> then rounds the exact value of that binary64
  number to the nearest thousandth, ties to the even thousandth; the result \<open>k / 1000\<close>
  stands for the binary64 number nearest to it.
\<close>

definition round_half_even :: "rat \<Rightarrow> int" where
  "round_half_even y =
     (let f = floor y; d = y - of_int f
      in if d < 1 / 2 then f else if 1 / 2 < d then f + 1 else if even f then f else f + 1)"

definition pow2 :: "int \<Rightarrow> rat" where
  "pow2 k = (if 0 \<le> k then 2 ^ nat k else 1 / 2 ^ nat (- k))"

text \<open>The binary exponent of a nonzero rational: the \<open>e\<close> with \<open>2 ^ e \<le> |q| < 2 ^ (e + 1)\<close>.\<close>

definition binary_exponent :: "rat \<Rightarrow> int" where
  "binary_exponent q =
     (let (a, b) = quotient_of \<bar>q\<bar>; e = bitlen a - bitlen b
      in if pow2 e \<le> \<bar>q\<bar> then e else e - 1)"

definition to_double :: "rat \<Rightarrow> rat" where
  "to_double q =
     (if q = 0 then 0
      else (let quantum = pow2 (max (binary_exponent q) (- 1022) - 52)
            in of_int (round_half_even (q / quantum)) * quantum))"

definition round3 :: "rat \<Rightarrow> rat" where
  "round3 q = of_int (round_half_even (to_double q * 1000)) / 1000"

text \<open>\<open>next(deck for deck in decks if deck.is_in_duel())\<close> unless the deck is given.\<close>

definition deck_in_duel_of :: "Deck option \<Rightarrow> Deck list \<Rightarrow> error + Deck" where
  "deck_in_duel_of given ds =
     (case given of
        Some deck \<Rightarrow> Inr deck
      | None \<Rightarrow> (case find is_in_duel ds of None \<Rightarrow> Inl StopIteration | Some deck \<Rightarrow> Inr deck))"

definition hidden_cards_me_of :: "Deck list \<Rightarrow> int \<Rightarrow> Card list" where
  "hidden_cards_me_of decks_me delegate_value_me =
     filter (\<lambda>card. \<not> card_open card \<and> (is_joker card \<or> card_value card \<le> delegate_value_me))
            (concat (map deck_cards decks_me))"

definition hidden_cards_opponent_of :: "Deck list \<Rightarrow> bool \<Rightarrow> int \<Rightarrow> Card list" where
  "hidden_cards_opponent_of decks_opponent is_opponent_red delegate_value_opponent =
     (let entire_pile = (if is_opponent_red then RedPile else BlackPile);
          unopened_pile = foldl (\<lambda>pile card. if card_open card then remove_card card pile else pile)
                                (UnopenedPile entire_pile)
                                (concat (map deck_cards decks_opponent))
      in filter (\<lambda>card. is_joker card \<or> card_value card \<le> delegate_value_opponent) unopened_pile)"

definition get_chances ::
  "(nat \<Rightarrow> int \<Rightarrow> int \<Rightarrow> int) \<Rightarrow> Deck list \<Rightarrow> Deck list \<Rightarrow> bool \<Rightarrow> Deck option \<Rightarrow> Deck option
   \<Rightarrow> JokerValueStrategy \<Rightarrow> error + (rat \<times> rat \<times> rat)" where
  "get_chances randint decks_me decks_opponent is_opponent_red deck_in_duel_me
               deck_in_duel_opponent joker_value_strategy_me =
     (case deck_in_duel_of deck_in_duel_me decks_me of
        Inl e \<Rightarrow> Inl e
      | Inr deck_me \<Rightarrow>
          (case deck_cards deck_me of
             [] \<Rightarrow> Inl IndexError
           | delegate_me # others_me \<Rightarrow>
               (let current_sum_me = sum_values (filter card_open (deck_cards deck_me));
                    delegate_value_me = card_value delegate_me;
                    hidden_cards_me = hidden_cards_me_of decks_me delegate_value_me;
                    num_opened = int (length (filter card_open (deck_cards deck_me)));
                    num_to_open = 3 - num_opened
                in case deck_in_duel_of deck_in_duel_opponent decks_opponent of
                     Inl e \<Rightarrow> Inl e
                   | Inr deck_opponent \<Rightarrow>
                       (case deck_cards deck_opponent of
                          [] \<Rightarrow> Inl IndexError
                        | delegate_opponent # others_opponent \<Rightarrow>
                            (let current_sum_opponent =
                                   sum_values (filter card_open (deck_cards deck_opponent));
                                 delegate_value_opponent = card_value delegate_opponent;
                                 hidden_cards_opponent =
                                   hidden_cards_opponent_of decks_opponent is_opponent_red
                                     delegate_value_opponent
                             in if num_to_open < 0 then Inl ValueError
                                else
                                  (case tally_pairs randint
                                          \<lparr>current_sum = current_sum_me,
                                           delegate_value = delegate_value_me,
                                           value_strategy = joker_value_strategy_me\<rparr>
                                          \<lparr>current_sum = current_sum_opponent,
                                           delegate_value = delegate_value_opponent,
                                           value_strategy = SameAsMax\<rparr>
                                          (combinations hidden_cards_me (nat num_to_open))
                                          (combinations hidden_cards_opponent (nat num_to_open))
                                          \<lparr>num_win = 0, num_draw = 0, num_lose = 0,
                                           draws_made = 0\<rparr> of
                                     Inl e \<Rightarrow> Inl e
                                   | Inr t \<Rightarrow>
                                       (let total = num_win t + num_draw t + num_lose t in
                                        if total = 0 then Inl ZeroDivisionError
                                        else Inr (round3 (of_nat (num_win t) / of_nat total),
                                                  round3 (of_nat (num_draw t) / of_nat total),
                                                  round3 (of_nat (num_lose t) / of_nat total)))))))))"

section \<open>Joker value: NextBiggest\<close>

lemma not_joker_not_eq: "is_joker j \<Longrightarrow> \<not> is_joker x \<Longrightarrow> \<not> card_eq x j"
  by (auto simp: is_joker_def card_eq_def)

lemma card_eq_refl: "card_eq j j"
  by (simp add: card_eq_def)

lemma NextBiggest_joker_first:
  assumes "is_joker a" "\<not> is_joker b" "\<not> is_joker c"
  shows "NextBiggest_apply [a, b, c] =
           Inr (set_joker_value (next_biggest_value (card_value b) (card_value c)) [a, b, c])"
  using assms
  by (simp add: NextBiggest_apply_def not_joker_not_eq card_eq_refl Let_def
        next_biggest_value_def max_def min_def)

lemma NextBiggest_joker_second:
  assumes "\<not> is_joker a" "is_joker b" "\<not> is_joker c"
  shows "NextBiggest_apply [a, b, c] =
           Inr (set_joker_value (next_biggest_value (card_value a) (card_value c)) [a, b, c])"
  using assms
  by (simp add: NextBiggest_apply_def not_joker_not_eq card_eq_refl Let_def
        next_biggest_value_def max_def min_def)

lemma NextBiggest_joker_third:
  assumes "\<not> is_joker a" "\<not> is_joker b" "is_joker c"
  shows "NextBiggest_apply [a, b, c] =
           Inr (set_joker_value (next_biggest_value (card_value a) (card_value b)) [a, b, c])"
  using assms
  by (simp add: NextBiggest_apply_def not_joker_not_eq card_eq_refl Let_def
        next_biggest_value_def max_def min_def)

lemma NextBiggest_three:
  assumes "length cards = 3" and "length (filter is_joker cards) = 1"
  shows "\<exists>x y. map card_value (filter (\<lambda>c. \<not> is_joker c) cards) = [x, y] \<and>
           NextBiggest_apply cards = Inr (set_joker_value (next_biggest_value x y) cards)"
proof -
  from assms(1) obtain a b c where cards: "cards = [a, b, c]"
    by (auto simp: length_Suc_conv numeral_3_eq_3)
  from assms(2) have "(is_joker a \<and> \<not> is_joker b \<and> \<not> is_joker c)
      \<or> (\<not> is_joker a \<and> is_joker b \<and> \<not> is_joker c)
      \<or> (\<not> is_joker a \<and> \<not> is_joker b \<and> is_joker c)"
    unfolding cards by (simp split: if_splits)
  then show ?thesis
    unfolding cards
    using NextBiggest_joker_first[of a b c] NextBiggest_joker_second[of a b c]
      NextBiggest_joker_third[of a b c]
    by (elim disjE conjE) simp_all
qed

lemma next_biggest_value_vectors:
  "next_biggest_value 5 9 = 8" "next_biggest_value 9 5 = 8"
  "next_biggest_value 7 8 = 6" "next_biggest_value 8 7 = 6"
  by (simp_all add: next_biggest_value_def)

lemma set_joker_value_one:
  "length (filter is_joker cards) = 1 \<Longrightarrow>
   set_joker_value v cards = map (\<lambda>c. if is_joker c then c\<lparr>card_value := v\<rparr> else c) cards"
proof (induction cards)
  case Nil
  then show ?case by simp
next
  case (Cons a cards)
  show ?case
  proof (cases "is_joker a")
    case True
    with Cons.prems have "filter is_joker cards = []" by simp
    then have "\<forall>c \<in> set cards. \<not> is_joker c" by (simp add: filter_empty_conv)
    then have "map (\<lambda>c. if is_joker c then c\<lparr>card_value := v\<rparr> else c) cards = cards"
      by (simp add: map_idI)
    with True show ?thesis by simp
  next
    case False
    with Cons show ?thesis by simp
  qed
qed

text \<open>
  C5, as amended. For every 3-card deck with exactly one joker: when the values of
  the two other cards are 5 and 9, NextBiggest returns the deck with the joker's value
  set to 8 and every other card as it was; when they are 7 and 8, it returns the deck
  with the joker's value set to 6 (the biggest minus 2), not to 5.
\<close>

theorem NextBiggest_test_vectors:
  assumes "length cards = 3" and "length (filter is_joker cards) = 1"
  shows "(set (map card_value (filter (\<lambda>c. \<not> is_joker c) cards)) = {5, 9} \<longrightarrow>
            NextBiggest_apply cards
              = Inr (map (\<lambda>c. if is_joker c then c\<lparr>card_value := 8\<rparr> else c) cards))
       \<and> (set (map card_value (filter (\<lambda>c. \<not> is_joker c) cards)) = {7, 8} \<longrightarrow>
            NextBiggest_apply cards
              = Inr (map (\<lambda>c. if is_joker c then c\<lparr>card_value := 6\<rparr> else c) cards))"
proof -
  from NextBiggest_three[OF assms] obtain x y where
    xy: "map card_value (filter (\<lambda>c. \<not> is_joker c) cards) = [x, y]" and
    nb: "NextBiggest_apply cards = Inr (set_joker_value (next_biggest_value x y) cards)"
    by (elim exE conjE)
  have a: "set [x, y] = {5, 9} \<Longrightarrow> next_biggest_value x y = 8"
    by (auto simp: doubleton_eq_iff next_biggest_value_vectors)
  have b: "set [x, y] = {7, 8} \<Longrightarrow> next_biggest_value x y = 6"
    by (auto simp: doubleton_eq_iff next_biggest_value_vectors)
  show ?thesis
    unfolding xy nb set_joker_value_one[OF assms(2)] using a b by auto
qed

theorem NextBiggest_test_vectors_witness:
  "(length deck_5_9 = 3 \<and> length (filter is_joker deck_5_9) = 1
    \<and> set (map card_value (filter (\<lambda>c. \<not> is_joker c) deck_5_9)) = {5, 9}
    \<and> NextBiggest_apply deck_5_9
        = Inr [plain HEART 9 False, joker_card True 8 False, plain DIAMOND 5 False])
   \<and> (length deck_7_8 = 3 \<and> length (filter is_joker deck_7_8) = 1
    \<and> set (map card_value (filter (\<lambda>c. \<not> is_joker c) deck_7_8)) = {7, 8}
    \<and> NextBiggest_apply deck_7_8
        = Inr [joker_card True 6 False, plain HEART 7 False, plain DIAMOND 8 False])"
proof -
  have 1: "length deck_5_9 = 3" by (simp add: deck_5_9_def)
  have 2: "length (filter is_joker deck_5_9) = 1"
    by (simp add: deck_5_9_def is_joker_def plain_def joker_card_def)
  have 3: "set (map card_value (filter (\<lambda>c. \<not> is_joker c) deck_5_9)) = {5, 9}"
    by (auto simp add: deck_5_9_def is_joker_def plain_def joker_card_def)
  have 4: "length deck_7_8 = 3" by (simp add: deck_7_8_def)
  have 5: "length (filter is_joker deck_7_8) = 1"
    by (simp add: deck_7_8_def is_joker_def plain_def joker_card_def)
  have 6: "set (map card_value (filter (\<lambda>c. \<not> is_joker c) deck_7_8)) = {7, 8}"
    by (auto simp add: deck_7_8_def is_joker_def plain_def joker_card_def)
  have 7: "map (\<lambda>c. if is_joker c then c\<lparr>card_value := 8\<rparr> else c) deck_5_9
             = [plain HEART 9 False, joker_card True 8 False, plain DIAMOND 5 False]"
    by (simp add: deck_5_9_def is_joker_def plain_def joker_card_def)
  have 8: "map (\<lambda>c. if is_joker c then c\<lparr>card_value := 6\<rparr> else c) deck_7_8
             = [joker_card True 6 False, plain HEART 7 False, plain DIAMOND 8 False]"
    by (simp add: deck_7_8_def is_joker_def plain_def joker_card_def)
  show ?thesis
    using NextBiggest_test_vectors[OF 1 2] NextBiggest_test_vectors[OF 4 5] 1 2 3 4 5 6
    by (simp add: 7 8)
qed

text \<open>
  C5 as stated fails on the second vector: in the deck (joker, 7 of hearts,
  8 of diamonds) NextBiggest gives the joker the value 6, so the result is not the
  deck whose joker is worth 5.
\<close>

theorem NextBiggest_7_8_counterexample:
  "NextBiggest_apply deck_7_8
       = Inr [joker_card True 6 False, plain HEART 7 False, plain DIAMOND 8 False]
   \<and> NextBiggest_apply deck_7_8
       \<noteq> Inr [joker_card True 5 False, plain HEART 7 False, plain DIAMOND 8 False]"
  by (simp add: deck_7_8_def NextBiggest_apply_def joker_card_def plain_def is_joker_def
        card_eq_def)

section \<open>Joker position: JokerLast\<close>

text \<open>
  C7 at a deck whose joker is dealt into slot 0. The joker (worth 7) does not exceed
  the best other card (7 of hearts), yet JokerLast leaves the 3 of diamonds in slot 0,
  the joker in slot 1 and the 7 of hearts in slot 2: after the first swap the joker no
  longer sits at \<open>joker_index\<close>, and the second swap moves the delegate away.
\<close>

theorem JokerLast_joker_in_front:
  "JokerLast_apply deck_joker_in_front
     = Inr [plain DIAMOND 3 False, joker_card True 7 False, plain HEART 7 False]"
  by (simp add: deck_joker_in_front_def JokerLast_apply_def find_joker_index_def
        joker_card_def plain_def is_joker_def card_eq_def biggest_def to_delegate_def
        swap_items_def)

section \<open>Defense deck choice: StatsConsideredBiggest\<close>

lemma py_getitem_out_of_range:
  "int (length xs) \<le> i \<Longrightarrow> py_getitem xs i = Inl IndexError"
  by (simp add: py_getitem_def py_index_def)

lemma py_getitem_in_range:
  "0 \<le> i \<Longrightarrow> i < int (length xs) \<Longrightarrow> py_getitem xs i = Inr (xs ! nat i)"
  by (simp add: py_getitem_def py_index_def)

text \<open>
  C8, at the states that break it. Whenever the offset
  (MAX_DIE - opponent's die count) + (REQUIRED_POINTS - own points) - 1 is at least
  the number of the opponent's undisclosed decks, StatsConsideredBiggest raises
  IndexError instead of returning a deck: the index is not guarded.
\<close>

theorem StatsConsideredBiggest_index_out_of_range:
  assumes "int (length (filter is_undisclosed decks_opponent))
             \<le> (MAX_DIE c - num_shout_die_opponent) + (REQUIRED_POINTS c - points_me) - 1"
  shows "StatsConsideredBiggest_apply c decks_opponent points_me num_shout_die_opponent
           = Inl IndexError"
  using assms
  by (simp add: StatsConsideredBiggest_apply_def Let_def py_getitem_out_of_range)

lemma red_decks_before_duel_8_undisclosed:
  "length (filter is_undisclosed red_decks_before_duel_8) = 2"
  by (simp add: red_decks_before_duel_8_def red_deal_def played_def fresh_def is_undisclosed_def)

theorem StatsConsideredBiggest_index_out_of_range_witness:
  "int (length (filter is_undisclosed red_decks_before_duel_8))
     \<le> (MAX_DIE constants_3_1_5 - 2) + (REQUIRED_POINTS constants_3_1_5 - 3) - 1
   \<and> filter is_undisclosed red_decks_before_duel_8 \<noteq> []
   \<and> StatsConsideredBiggest_apply constants_3_1_5 red_decks_before_duel_8 3 2 = Inl IndexError"
proof -
  have h: "int (length (filter is_undisclosed red_decks_before_duel_8))
     \<le> (MAX_DIE constants_3_1_5 - 2) + (REQUIRED_POINTS constants_3_1_5 - 3) - 1"
    by (simp add: red_decks_before_duel_8_undisclosed constants_3_1_5_def)
  have n: "filter is_undisclosed red_decks_before_duel_8 \<noteq> []"
    using red_decks_before_duel_8_undisclosed by fastforce
  show ?thesis
    using StatsConsideredBiggest_index_out_of_range[OF h] h n by simp
qed

text \<open>
  The sibling strategy SmallestDefenseDeck returns one of the opponent's undisclosed
  decks whenever there is one.
\<close>

lemma foldl_min_by_index_mem:
  "foldl (\<lambda>best x. if deck_index x < deck_index best then x else best) d ds \<in> set (d # ds)"
proof (induction ds arbitrary: d)
  case Nil
  then show ?case by simp
next
  case (Cons a ds)
  have "foldl (\<lambda>best x. if deck_index x < deck_index best then x else best) d (a # ds)
        = foldl (\<lambda>best x. if deck_index x < deck_index best then x else best)
            (if deck_index a < deck_index d then a else d) ds" by simp
  also have "\<dots> \<in> set ((if deck_index a < deck_index d then a else d) # ds)"
    by (rule Cons.IH)
  finally show ?case by (auto split: if_splits)
qed

lemma SmallestDefenseDeck_returns_undisclosed:
  assumes "filter is_undisclosed decks_opponent \<noteq> []"
  shows "\<exists>d. SmallestDefenseDeck_apply decks_opponent = Inr d
             \<and> d \<in> set decks_opponent \<and> is_undisclosed d"
proof -
  from assms obtain x xs where xs: "filter is_undisclosed decks_opponent = x # xs"
    by (cases "filter is_undisclosed decks_opponent") auto
  have "foldl (\<lambda>best y. if deck_index y < deck_index best then y else best) x xs
          \<in> set (x # xs)"
    by (rule foldl_min_by_index_mem)
  then have "foldl (\<lambda>best y. if deck_index y < deck_index best then y else best) x xs
          \<in> set (filter is_undisclosed decks_opponent)"
    by (simp only: xs)
  then have "foldl (\<lambda>best y. if deck_index y < deck_index best then y else best) x xs
          \<in> set decks_opponent \<and> is_undisclosed (foldl (\<lambda>best y. if deck_index y < deck_index best then y else best) x xs)"
    by simp
  then show ?thesis
    by (simp add: SmallestDefenseDeck_apply_def xs)
qed

section \<open>Shout resolution\<close>

lemma player_update_player:
  "player (update_player p f g) q = (if q = p then f (player g q) else player g q)"
  by (cases p; cases q) simp_all

lemma update_player_frame:
  "duel_ongoing (update_player p f g) = duel_ongoing g"
  "game_over (update_player p f g) = game_over g"
  "game_winner (update_player p f g) = game_winner g"
  "game_loser (update_player p f g) = game_loser g"
  "game_result (update_player p f g) = game_result g"
  by (cases p; simp)+

text \<open>Hearing the shouts changes nothing but the players' recent actions.\<close>

lemma hear_invariant:
  assumes red: "\<And>g a. f (g\<lparr>player_red := (player_red g)\<lparr>recent_action := a\<rparr>\<rparr>) = f g"
    and black: "\<And>g a. f (g\<lparr>player_black := (player_black g)\<lparr>recent_action := a\<rparr>\<rparr>) = f g"
  shows "f (hear shouts r b g) = f g"
proof (induction shouts arbitrary: r b g)
  case Nil
  show ?case by simp
next
  case (Cons s shouts)
  obtain p a where s: "s = (p, a)" by (cases s)
  show ?case
    unfolding s
    by (cases r; cases b; cases p; simp add: Let_def Cons.IH red black)
qed

lemma hear_game_frame:
  "duel_ongoing (hear shouts r b g) = duel_ongoing g"
  "game_over (hear shouts r b g) = game_over g"
  "game_winner (hear shouts r b g) = game_winner g"
  "game_loser (hear shouts r b g) = game_loser g"
  "game_result (hear shouts r b g) = game_result g"
  by (rule hear_invariant; simp)+

lemma hear_player_fields:
  "points (player (hear shouts r b g) p) = points (player g p)"
  "num_shout_die (player (hear shouts r b g) p) = num_shout_die (player g p)"
  "num_shout_done (player (hear shouts r b g) p) = num_shout_done (player g p)"
  "num_shout_draw (player (hear shouts r b g) p) = num_shout_draw (player g p)"
  "decks (player (hear shouts r b g) p) = decks (player g p)"
  "deck_in_duel (player (hear shouts r b g) p) = deck_in_duel (player g p)"
  "deck_in_duel_index (player (hear shouts r b g) p) = deck_in_duel_index (player g p)"
  apply (rule hear_invariant[where f = "\<lambda>g. points (player g p)"];  cases p; simp)
  apply (rule hear_invariant[where f = "\<lambda>g. num_shout_die (player g p)"];  cases p; simp)
  apply (rule hear_invariant[where f = "\<lambda>g. num_shout_done (player g p)"];  cases p; simp)
  apply (rule hear_invariant[where f = "\<lambda>g. num_shout_draw (player g p)"];  cases p; simp)
  apply (rule hear_invariant[where f = "\<lambda>g. decks (player g p)"];  cases p; simp)
  apply (rule hear_invariant[where f = "\<lambda>g. deck_in_duel (player g p)"];  cases p; simp)
  apply (rule hear_invariant[where f = "\<lambda>g. deck_in_duel_index (player g p)"];  cases p; simp)
  done


lemma valid_actions_early:
  "rnd = 1 \<or> rnd = 2 \<Longrightarrow>
   valid_actions c p rnd = Inr ([DONE, DARE] @ (if num_shout_die p < MAX_DIE c then [DIE] else []))"
  by (auto simp: valid_actions_def)

lemma valid_actions_final:
  "valid_actions c p 3 = Inr ([DONE, IDLE] @ (if num_shout_draw p < MAX_DRAW c then [DRAW] else []))"
  by (simp add: valid_actions_def)

lemma valid_actions_cases:
  assumes "rnd = 1 \<or> rnd = 2 \<or> rnd = 3"
  shows "\<exists>valid. valid_actions c p rnd = Inr valid \<and> DONE \<in> set valid
           \<and> (DIE \<in> set valid \<longleftrightarrow> (rnd = 1 \<or> rnd = 2) \<and> num_shout_die p < MAX_DIE c)
           \<and> (DRAW \<in> set valid \<longleftrightarrow> rnd = 3 \<and> num_shout_draw p < MAX_DRAW c)"
  using assms by (auto simp: valid_actions_def)

lemma is_done_decks: "decks p = decks q \<Longrightarrow> is_done p = is_done q"
  by (simp add: is_done_def)

lemma Duel_end_no_winner:
  "st = DIED \<or> st = ABORTED_BY_CORRECT_DONE \<Longrightarrow>
   Duel_end st None None g = Inr (close_decks (ended st None None g))"
  by (auto simp: Duel_end_def is_end_code_def Let_def ended_def)

lemma Duel_end_winner:
  "st = DRAWN \<or> st = DUEL_FINISHED \<Longrightarrow>
   Duel_end st (Some w) None g =
     Inr (close_decks
            (update_player w (\<lambda>p. p\<lparr>points := points p + 1\<rparr>)
               (ended st (Some w)
                  (Some (if w = offense (duel_ongoing g) then offense (duel_ongoing g)
                         else defense (duel_ongoing g))) g)))"
  by (auto simp: Duel_end_def is_end_code_def Let_def ended_def)

lemma done_body_eq:
  assumes "rnd = 1 \<or> rnd = 2 \<or> rnd = 3"
  shows "done_body c rnd p g =
     (if recent_action (player g p) = Some DONE then
        (if is_done (player g p) then
           Inr (Game_end GAME_DONE (Some p) None
                  (close_decks (ended ABORTED_BY_CORRECT_DONE None None (count_done p g))),
                Some AFTER_GAME_ENDS)
         else Inr (count_done p g, None))
      else Inr (g, None))"
proof -
  from valid_actions_cases[OF assms, of c "player g p"] obtain valid where
    v: "valid_actions c (player g p) rnd = Inr valid" "DONE \<in> set valid" by blast
  have d: "is_done (player (count_done p g) p) = is_done (player g p)"
    by (rule is_done_decks) (simp add: count_done_def player_update_player)
  show ?thesis
    using v d
    by (simp add: done_body_def Let_def Duel_end_no_winner count_done_def[symmetric])
qed

lemma die_body_eq:
  assumes "rnd = 1 \<or> rnd = 2 \<or> rnd = 3"
  shows "die_body c rnd p g =
     (if (rnd = 1 \<or> rnd = 2) \<and> num_shout_die (player g p) < MAX_DIE c
          \<and> recent_action (player g p) = Some DIE then
        Inr (close_decks (ended DIED None None (count_die p g)), Some AFTER_DUEL_ENDS)
      else Inr (g, None))"
proof -
  from valid_actions_cases[OF assms, of c "player g p"] obtain valid where
    v: "valid_actions c (player g p) rnd = Inr valid"
       "DIE \<in> set valid \<longleftrightarrow> (rnd = 1 \<or> rnd = 2) \<and> num_shout_die (player g p) < MAX_DIE c"
    by blast
  show ?thesis
    using v
    by (simp add: die_body_def Let_def Duel_end_no_winner count_die_def[symmetric])
qed


lemma close_deck_in_duel_fields:
  "points (close_deck_in_duel p) = points p"
  "num_shout_die (close_deck_in_duel p) = num_shout_die p"
  "num_shout_done (close_deck_in_duel p) = num_shout_done p"
  "num_shout_draw (close_deck_in_duel p) = num_shout_draw p"
  "recent_action (close_deck_in_duel p) = recent_action p"
  "deck_in_duel_index (close_deck_in_duel p) = deck_in_duel_index p"
  "deck_in_duel (close_deck_in_duel p) = None"
  by (simp_all add: close_deck_in_duel_def split: option.splits)

lemma close_deck_in_duel_idem:
  "close_deck_in_duel (close_deck_in_duel p) = close_deck_in_duel p"
  by (simp add: close_deck_in_duel_def split: option.splits)

lemma close_deck_in_duel_deck:
  assumes "deck_in_duel p = Some i" "i < length (decks p)"
  shows "deck_state (decks (close_deck_in_duel p) ! i) = FINISHED"
    and "\<forall>c \<in> set (deck_cards (decks (close_deck_in_duel p) ! i)). card_open c"
    and "map card_value (deck_cards (decks (close_deck_in_duel p) ! i))
           = map card_value (deck_cards (decks p ! i))"
  using assms by (simp_all add: close_deck_in_duel_def finish_def open_up_def comp_def)

lemma player_close_decks:
  "offense (duel_ongoing g) \<noteq> defense (duel_ongoing g) \<Longrightarrow>
   player (close_decks g) p = close_deck_in_duel (player g p)"
  by (cases p; cases "offense (duel_ongoing g)"; cases "defense (duel_ongoing g)";
      simp add: close_decks_def)

lemma close_decks_frame:
  "duel_ongoing (close_decks g) = duel_ongoing g"
  "game_over (close_decks g) = game_over g"
  "game_winner (close_decks g) = game_winner g"
  "game_loser (close_decks g) = game_loser g"
  "game_result (close_decks g) = game_result g"
  by (simp_all add: close_decks_def update_player_frame)

lemma Game_end_frame:
  "duel_ongoing (Game_end r w l g) = duel_ongoing g"
  "player (Game_end r w l g) p = player g p"
  "game_over (Game_end r w l g)"
  "game_result (Game_end r w l g) = Some r"
  "game_winner (Game_end r (Some x) l g) = Some x"
  by (cases p; simp add: Game_end_def Let_def)+

lemma ended_frame:
  "player (ended st w l g) p = player g p"
  "game_over (ended st w l g) = game_over g"
  "game_winner (ended st w l g) = game_winner g"
  "game_loser (ended st w l g) = game_loser g"
  "game_result (ended st w l g) = game_result g"
  "duel_state (duel_ongoing (ended st w l g)) = st"
  "duel_over (duel_ongoing (ended st w l g))"
  "duel_winner (duel_ongoing (ended st w l g)) = w"
  "duel_loser (duel_ongoing (ended st w l g)) = l"
  "duel_round (duel_ongoing (ended st w l g)) = duel_round (duel_ongoing g)"
  "offense (duel_ongoing (ended st w l g)) = offense (duel_ongoing g)"
  "defense (duel_ongoing (ended st w l g)) = defense (duel_ongoing g)"
  "duel_index (duel_ongoing (ended st w l g)) = duel_index (duel_ongoing g)"
  by (cases p; simp add: ended_def)+

lemma update_player_ended:
  "update_player p f (ended st w l g) = ended st w l (update_player p f g)"
  by (cases p; simp add: ended_def)

lemma is_drawn_committed:
  assumes "deck_in_duel (player g (offense (duel_ongoing g))) = Some i"
      and "deck_in_duel (player g (defense (duel_ongoing g))) = Some j"
  shows "is_drawn g =
           Inr (sum_values (deck_cards (decks (player g (offense (duel_ongoing g))) ! i))
                = sum_values (deck_cards (decks (player g (defense (duel_ongoing g))) ! j)))"
  using assms by (simp add: is_drawn_def Let_def)

lemma end_if_required_points_eq:
  "duel_winner (duel_ongoing g) = Some w \<Longrightarrow>
   end_if_required_points c g =
     (if points (player g w) = REQUIRED_POINTS c
      then Inr (Game_end GAME_FINISHED (Some w) None g, AFTER_GAME_ENDS)
      else Inr (g, AFTER_DUEL_ENDS))"
  by (simp add: end_if_required_points_def)


lemma count_frame:
  "duel_ongoing (count_done p g) = duel_ongoing g"
  "duel_ongoing (count_die p g) = duel_ongoing g"
  "duel_ongoing (count_draw p g) = duel_ongoing g"
  "game_over (count_done p g) = game_over g"
  "game_over (count_die p g) = game_over g"
  "game_over (count_draw p g) = game_over g"
  "game_winner (count_done p g) = game_winner g"
  "game_winner (count_die p g) = game_winner g"
  "game_winner (count_draw p g) = game_winner g"
  "game_result (count_done p g) = game_result g"
  "game_result (count_die p g) = game_result g"
  "game_result (count_draw p g) = game_result g"
  by (simp_all add: count_done_def count_die_def count_draw_def update_player_frame)

lemma player_count:
  "player (count_done p g) q
     = (if q = p then (player g q)\<lparr>num_shout_done := num_shout_done (player g q) + 1\<rparr> else player g q)"
  "player (count_die p g) q
     = (if q = p then (player g q)\<lparr>num_shout_die := num_shout_die (player g q) + 1\<rparr> else player g q)"
  "player (count_draw p g) q
     = (if q = p then (player g q)\<lparr>num_shout_draw := num_shout_draw (player g q) + 1\<rparr> else player g q)"
  by (simp_all add: count_done_def count_die_def count_draw_def player_update_player)

lemma resolve_done:
  assumes "off = offense (duel_ongoing g)" "dfn = defense (duel_ongoing g)"
    "r = duel_round (duel_ongoing g)"
    "for_players (done_body c r) [off, dfn] g = Inr (g1, Some d)"
  shows "resolve c g = Inr (g1, d)"
  using assms(4) unfolding resolve_def lower_tiers_def Let_def assms(1-3)[symmetric] by simp

lemma resolve_die:
  assumes "off = offense (duel_ongoing g)" "dfn = defense (duel_ongoing g)"
    "r = duel_round (duel_ongoing g)"
    "for_players (done_body c r) [off, dfn] g = Inr (g1, None)"
    "for_players (die_body c r) [off, dfn] g1 = Inr (g2, Some d)"
  shows "resolve c g = Inr (g2, d)"
  using assms(4,5) unfolding resolve_def lower_tiers_def Let_def assms(1-3)[symmetric] by simp

lemma resolve_draw:
  assumes "off = offense (duel_ongoing g)" "dfn = defense (duel_ongoing g)"
    "r = duel_round (duel_ongoing g)"
    "for_players (done_body c r) [off, dfn] g = Inr (g1, None)"
    "for_players (die_body c r) [off, dfn] g1 = Inr (g2, None)"
    "for_players (draw_body c r) [off, dfn] g2 = Inr (g3, Some d)"
  shows "resolve c g = Inr (g3, d)"
  using assms(4,5,6) unfolding resolve_def lower_tiers_def Let_def assms(1-3)[symmetric] by simp

lemma resolve_fallthrough:
  assumes "off = offense (duel_ongoing g)" "dfn = defense (duel_ongoing g)"
    "r = duel_round (duel_ongoing g)"
    "for_players (done_body c r) [off, dfn] g = Inr (g1, None)"
    "for_players (die_body c r) [off, dfn] g1 = Inr (g2, None)"
    "for_players (draw_body c r) [off, dfn] g2 = Inr (g3, None)"
  shows "resolve c g = fallthrough c r g3"
  using assms(4,5,6) unfolding resolve_def lower_tiers_def Let_def assms(1-3)[symmetric] by simp

text \<open>
  C4, as amended. If the offense's action at a first-phase shout (round counter 1 or 2)
  is DIE, its die count is under the cap and the defense has not made a correct DONE
  declaration, then shout resolution ends the duel as DIED with no winner: neither
  player's points change, the offense's die counter grows by exactly 1 and the
  defense's stays, both committed decks are FINISHED with every card open, both
  commitments are cleared, and the game goes on.
\<close>

theorem offense_die_ends_duel:
  assumes roles: "off = offense (duel_ongoing g)" "dfn = defense (duel_ongoing g)" "off \<noteq> dfn"
    and rnd: "duel_round (duel_ongoing g) = 1 \<or> duel_round (duel_ongoing g) = 2"
    and die: "recent_action (player (hear shouts False False g) off) = Some DIE"
    and cap: "num_shout_die (player g off) < MAX_DIE c"
    and nodone: "\<not> (recent_action (player (hear shouts False False g) dfn) = Some DONE
                    \<and> is_done (player g dfn))"
    and ci: "deck_in_duel (player g off) = Some i" "i < length (decks (player g off))"
    and cj: "deck_in_duel (player g dfn) = Some j" "j < length (decks (player g dfn))"
  shows "\<exists>g'. process_shout c shouts g = Inr (g', AFTER_DUEL_ENDS)
           \<and> duel_state (duel_ongoing g') = DIED \<and> duel_over (duel_ongoing g')
           \<and> duel_winner (duel_ongoing g') = None
           \<and> points (player g' off) = points (player g off)
           \<and> points (player g' dfn) = points (player g dfn)
           \<and> num_shout_die (player g' off) = num_shout_die (player g off) + 1
           \<and> num_shout_die (player g' dfn) = num_shout_die (player g dfn)
           \<and> deck_state (decks (player g' off) ! i) = FINISHED
           \<and> (\<forall>card \<in> set (deck_cards (decks (player g' off) ! i)). card_open card)
           \<and> deck_state (decks (player g' dfn) ! j) = FINISHED
           \<and> (\<forall>card \<in> set (deck_cards (decks (player g' dfn) ! j)). card_open card)
           \<and> deck_in_duel (player g' off) = None \<and> deck_in_duel (player g' dfn) = None
           \<and> game_over g' = game_over g"
proof -
  define h where "h = hear shouts False False g"
  define r where "r = duel_round (duel_ongoing g)"
  define g1 where "g1 = (if recent_action (player h dfn) = Some DONE then count_done dfn h else h)"
  define g2 where "g2 = close_decks (ended DIED None None (count_die off g1))"
  have r: "r = 1 \<or> r = 2 \<or> r = 3" "r = 1 \<or> r = 2" using rnd by (auto simp: r_def)
  have hd: "duel_ongoing h = duel_ongoing g" by (simp add: h_def hear_game_frame)
  have dead: "recent_action (player h off) = Some DIE" using die by (simp add: h_def)
  have notdone: "recent_action (player h dfn) = Some DONE \<Longrightarrow> \<not> is_done (player h dfn)"
    using nodone is_done_decks[of "player h dfn" "player g dfn"]
    by (simp add: h_def hear_player_fields)
  have done_tier: "for_players (done_body c r) [off, dfn] h = Inr (g1, None)"
    using dead notdone by (simp add: done_body_eq[OF r(1)] g1_def)
  have g1_off: "player g1 off = player h off"
    using roles(3) by (simp add: g1_def player_count)
  have g1d: "duel_ongoing g1 = duel_ongoing g" by (simp add: g1_def count_frame hd)
  have die_tier: "for_players (die_body c r) [off, dfn] g1 = Inr (g2, Some AFTER_DUEL_ENDS)"
    using r(2) dead cap
    by (simp add: die_body_eq[OF r(1)] g1_off g2_def h_def hear_player_fields)
  have "resolve c h = Inr (g2, AFTER_DUEL_ENDS)"
    by (rule resolve_die[OF _ _ _ done_tier die_tier]) (simp_all add: hd roles r_def)
  then have res: "process_shout c shouts g = Inr (g2, AFTER_DUEL_ENDS)"
    by (simp add: process_shout_def h_def)
  have od: "offense (duel_ongoing (ended DIED None None (count_die off g1)))
              \<noteq> defense (duel_ongoing (ended DIED None None (count_die off g1)))"
    using roles by (simp add: ended_frame count_frame g1d)
  have p2: "player g2 p = close_deck_in_duel (player (count_die off g1) p)" for p
    unfolding g2_def by (simp add: player_close_decks[OF od] ended_frame)
  have pg1: "points (player g1 p) = points (player g p)"
         "num_shout_die (player g1 p) = num_shout_die (player g p)"
         "decks (player g1 p) = decks (player g p)"
         "deck_in_duel (player g1 p) = deck_in_duel (player g p)" for p
    by (simp_all add: g1_def player_count h_def hear_player_fields)
  have dks: "decks (player (count_die off g1) p) = decks (player g p)"
       "deck_in_duel (player (count_die off g1) p) = deck_in_duel (player g p)" for p
    by (simp_all add: player_count pg1)
  show ?thesis
  proof (intro exI conjI)
    show "process_shout c shouts g = Inr (g2, AFTER_DUEL_ENDS)" by (rule res)
    show "duel_state (duel_ongoing g2) = DIED" "duel_over (duel_ongoing g2)"
      "duel_winner (duel_ongoing g2) = None"
      by (simp_all add: g2_def close_decks_frame ended_frame)
    show "points (player g2 off) = points (player g off)"
      "points (player g2 dfn) = points (player g dfn)"
      by (simp_all add: p2 close_deck_in_duel_fields player_count pg1)
    show "num_shout_die (player g2 off) = num_shout_die (player g off) + 1"
      "num_shout_die (player g2 dfn) = num_shout_die (player g dfn)"
      using roles(3) by (simp_all add: p2 close_deck_in_duel_fields player_count pg1)
    show "deck_state (decks (player g2 off) ! i) = FINISHED"
      "\<forall>card \<in> set (deck_cards (decks (player g2 off) ! i)). card_open card"
      using close_deck_in_duel_deck(1,2)[of "player (count_die off g1) off" i] ci
      by (simp_all add: p2 dks)
    show "deck_state (decks (player g2 dfn) ! j) = FINISHED"
      "\<forall>card \<in> set (deck_cards (decks (player g2 dfn) ! j)). card_open card"
      using close_deck_in_duel_deck(1,2)[of "player (count_die off g1) dfn" j] cj
      by (simp_all add: p2 dks)
    show "deck_in_duel (player g2 off) = None" "deck_in_duel (player g2 dfn) = None"
      by (simp_all add: p2 close_deck_in_duel_fields)
    show "game_over g2 = game_over g"
      by (simp add: g2_def close_decks_frame ended_frame count_frame g1_def h_def hear_game_frame)
  qed
qed

lemma count_done_if_frame:
  "duel_ongoing (count_done_if p g) = duel_ongoing g"
  "game_over (count_done_if p g) = game_over g"
  "game_winner (count_done_if p g) = game_winner g"
  "game_result (count_done_if p g) = game_result g"
  "recent_action (player (count_done_if p g) q) = recent_action (player g q)"
  "decks (player (count_done_if p g) q) = decks (player g q)"
  "deck_in_duel (player (count_done_if p g) q) = deck_in_duel (player g q)"
  "points (player (count_done_if p g) q) = points (player g q)"
  "num_shout_die (player (count_done_if p g) q) = num_shout_die (player g q)"
  "num_shout_draw (player (count_done_if p g) q) = num_shout_draw (player g q)"
  by (simp_all add: count_done_if_def count_frame player_count)

lemma count_draw_if_frame:
  "duel_ongoing (count_draw_if c r p g) = duel_ongoing g"
  "game_over (count_draw_if c r p g) = game_over g"
  "game_winner (count_draw_if c r p g) = game_winner g"
  "game_result (count_draw_if c r p g) = game_result g"
  "recent_action (player (count_draw_if c r p g) q) = recent_action (player g q)"
  "decks (player (count_draw_if c r p g) q) = decks (player g q)"
  "deck_in_duel (player (count_draw_if c r p g) q) = deck_in_duel (player g q)"
  "points (player (count_draw_if c r p g) q) = points (player g q)"
  "num_shout_die (player (count_draw_if c r p g) q) = num_shout_die (player g q)"
  "num_shout_done (player (count_draw_if c r p g) q) = num_shout_done (player g q)"
  by (simp_all add: count_draw_if_def count_frame player_count)

lemma is_done_count_done_if: "is_done (player (count_done_if p g) q) = is_done (player g q)"
  by (rule is_done_decks) (simp add: count_done_if_frame)

text \<open>The DONE loop over offense and defense.\<close>

lemma done_tier_eq:
  assumes "rnd = 1 \<or> rnd = 2 \<or> rnd = 3"
  shows "for_players (done_body c rnd) [off, dfn] g =
     (if recent_action (player g off) = Some DONE \<and> is_done (player g off)
      then Inr (won_by_done off g, Some AFTER_GAME_ENDS)
      else if recent_action (player g dfn) = Some DONE \<and> is_done (player g dfn)
      then Inr (won_by_done dfn (count_done_if off g), Some AFTER_GAME_ENDS)
      else Inr (count_done_if dfn (count_done_if off g), None))"
proof -
  have a: "done_body c rnd off g =
     (if recent_action (player g off) = Some DONE \<and> is_done (player g off)
      then Inr (won_by_done off g, Some AFTER_GAME_ENDS)
      else Inr (count_done_if off g, None))"
    by (simp add: done_body_eq[OF assms] won_by_done_def count_done_if_def)
  have b: "done_body c rnd dfn g1 =
     (if recent_action (player g1 dfn) = Some DONE \<and> is_done (player g1 dfn)
      then Inr (won_by_done dfn g1, Some AFTER_GAME_ENDS)
      else Inr (count_done_if dfn g1, None))" for g1
    by (simp add: done_body_eq[OF assms] won_by_done_def count_done_if_def)
  show ?thesis
    by (simp add: a b count_done_if_frame is_done_count_done_if)
qed

text \<open>The DIE loop.\<close>

lemma die_tier_eq:
  assumes "rnd = 1 \<or> rnd = 2 \<or> rnd = 3"
  shows "for_players (die_body c rnd) [off, dfn] g =
     (if die_valid c rnd g off then Inr (died_by off g, Some AFTER_DUEL_ENDS)
      else if die_valid c rnd g dfn then Inr (died_by dfn g, Some AFTER_DUEL_ENDS)
      else Inr (g, None))"
  by (cases "die_valid c rnd g off"; cases "die_valid c rnd g dfn")
     (simp_all add: die_body_eq[OF assms] die_valid_def[symmetric] died_by_def)

lemma is_drawn_count_draw: "is_drawn (count_draw p g) = is_drawn g"
proof -
  have a: "deck_in_duel (player (count_draw p g) q) = deck_in_duel (player g q)" for q
    by (simp add: player_count)
  have b: "decks (player (count_draw p g) q) = decks (player g q)" for q
    by (simp add: player_count)
  show ?thesis
    unfolding is_drawn_def Let_def by (simp only: a b count_frame)
qed

lemma draw_body_eq:
  assumes "rnd = 1 \<or> rnd = 2 \<or> rnd = 3"
    and "is_drawn g = Inr eq"
  shows "draw_body c rnd p g =
     (if draw_valid c rnd g p then
        (if eq then
           (case end_if_required_points c (award DRAWN p (count_draw p g)) of
              Inl e \<Rightarrow> Inl e
            | Inr (g3, duration) \<Rightarrow> Inr (g3, Some duration))
         else Inr (count_draw p g, None))
      else Inr (g, None))"
proof -
  from valid_actions_cases[OF assms(1), of c "player g p"] obtain valid where
    v: "valid_actions c (player g p) rnd = Inr valid"
       "DRAW \<in> set valid \<longleftrightarrow> rnd = 3 \<and> num_shout_draw (player g p) < MAX_DRAW c"
    by blast
  show ?thesis
    using v assms(2)
    by (cases "draw_valid c rnd g p"; cases eq)
       (auto simp add: draw_body_def Let_def Duel_end_winner count_draw_def[symmetric]
          is_drawn_count_draw award_def draw_valid_def)
qed

lemma award_frame:
  assumes "offense (duel_ongoing g) \<noteq> defense (duel_ongoing g)"
  shows "player (award st w g) p
           = close_deck_in_duel (if p = w then (player g p)\<lparr>points := points (player g p) + 1\<rparr>
                                 else player g p)"
    and "duel_winner (duel_ongoing (award st w g)) = Some w"
    and "duel_state (duel_ongoing (award st w g)) = st"
    and "duel_over (duel_ongoing (award st w g))"
    and "duel_round (duel_ongoing (award st w g)) = duel_round (duel_ongoing g)"
    and "game_over (award st w g) = game_over g"
    and "game_winner (award st w g) = game_winner g"
    and "game_result (award st w g) = game_result g"
proof -
  have od: "offense (duel_ongoing (update_player w f (ended st x y g)))
              \<noteq> defense (duel_ongoing (update_player w f (ended st x y g)))" for f x y
    using assms by (simp add: update_player_frame ended_frame)
  show "player (award st w g) p
           = close_deck_in_duel (if p = w then (player g p)\<lparr>points := points (player g p) + 1\<rparr>
                                 else player g p)"
    unfolding award_def
    by (simp add: player_close_decks[OF od] player_update_player ended_frame)
  show "duel_winner (duel_ongoing (award st w g)) = Some w"
    "duel_state (duel_ongoing (award st w g)) = st"
    "duel_over (duel_ongoing (award st w g))"
    "duel_round (duel_ongoing (award st w g)) = duel_round (duel_ongoing g)"
    "game_over (award st w g) = game_over g"
    "game_winner (award st w g) = game_winner g"
    "game_result (award st w g) = game_result g"
    unfolding award_def
    by (simp_all add: close_decks_frame update_player_frame ended_frame)
qed

lemma end_if_required_points_award:
  assumes "offense (duel_ongoing g) \<noteq> defense (duel_ongoing g)"
  shows "end_if_required_points c (award st w g) = Inr (awarded c st w g)"
  by (simp add: end_if_required_points_eq[OF award_frame(2)[OF assms]] award_frame(1)[OF assms]
        close_deck_in_duel_fields awarded_def)

lemma draw_valid_count_draw_if:
  "p \<noteq> q \<Longrightarrow> draw_valid c rnd (count_draw_if c rnd p g) q = draw_valid c rnd g q"
  by (simp add: draw_valid_def count_draw_if_frame count_draw_if_def player_count)

lemma is_drawn_count_draw_if: "is_drawn (count_draw_if c rnd p g) = is_drawn g"
  by (simp add: count_draw_if_def is_drawn_count_draw)

text \<open>The DRAW loop, for a duel whose two decks are committed.\<close>

lemma draw_tier_eq:
  assumes rnd: "rnd = 1 \<or> rnd = 2 \<or> rnd = 3"
    and roles: "off = offense (duel_ongoing g)" "dfn = defense (duel_ongoing g)" "off \<noteq> dfn"
    and drawn: "is_drawn g = Inr eq"
  shows "for_players (draw_body c rnd) [off, dfn] g =
     (if draw_valid c rnd g off \<and> eq
      then Inr (fst (awarded c DRAWN off (count_draw off g)),
                Some (snd (awarded c DRAWN off (count_draw off g))))
      else if draw_valid c rnd g dfn \<and> eq
      then Inr (fst (awarded c DRAWN dfn (count_draw dfn (count_draw_if c rnd off g))),
                Some (snd (awarded c DRAWN dfn (count_draw dfn (count_draw_if c rnd off g)))))
      else Inr (count_draw_if c rnd dfn (count_draw_if c rnd off g), None))"
proof -
  have od: "offense (duel_ongoing (count_draw p g1)) \<noteq> defense (duel_ongoing (count_draw p g1))"
    if "duel_ongoing g1 = duel_ongoing g" for p g1
    using roles that by (simp add: count_frame)
  have body: "draw_body c rnd p g1 =
     (if draw_valid c rnd g1 p then
        (if eq then Inr (fst (awarded c DRAWN p (count_draw p g1)),
                         Some (snd (awarded c DRAWN p (count_draw p g1))))
         else Inr (count_draw p g1, None))
      else Inr (g1, None))"
    if "duel_ongoing g1 = duel_ongoing g" "is_drawn g1 = Inr eq" for p g1
    by (simp add: draw_body_eq[OF rnd that(2)] end_if_required_points_award[OF od[OF that(1)]]
          split: prod.splits)
  have first: "draw_body c rnd off g =
     (if draw_valid c rnd g off \<and> eq
      then Inr (fst (awarded c DRAWN off (count_draw off g)),
                Some (snd (awarded c DRAWN off (count_draw off g))))
      else Inr (count_draw_if c rnd off g, None))"
    by (simp add: body[OF refl drawn] count_draw_if_def)
  have second: "draw_body c rnd dfn (count_draw_if c rnd off g) =
     (if draw_valid c rnd g dfn \<and> eq
      then Inr (fst (awarded c DRAWN dfn (count_draw dfn (count_draw_if c rnd off g))),
                Some (snd (awarded c DRAWN dfn (count_draw dfn (count_draw_if c rnd off g)))))
      else Inr (count_draw_if c rnd dfn (count_draw_if c rnd off g), None))"
  proof -
    have d: "duel_ongoing (count_draw_if c rnd off g) = duel_ongoing g"
      by (simp add: count_draw_if_frame)
    have e: "is_drawn (count_draw_if c rnd off g) = Inr eq"
      using drawn by (simp add: is_drawn_count_draw_if)
    have v: "draw_valid c rnd (count_draw_if c rnd off g) dfn = draw_valid c rnd g dfn"
      using roles(3) by (simp add: draw_valid_count_draw_if)
    show ?thesis
      by (simp add: body[OF d e] v count_draw_if_def[of c rnd dfn] v)
  qed
  show ?thesis
    by (simp add: first second)
qed

lemma fallthrough_eq:
  assumes roles: "off = offense (duel_ongoing g)" "dfn = defense (duel_ongoing g)" "off \<noteq> dfn"
    and ci: "deck_in_duel (player g off) = Some i"
    and cj: "deck_in_duel (player g dfn) = Some j"
    and so: "so = sum_values (deck_cards (decks (player g off) ! i))"
    and sd: "sd = sum_values (deck_cards (decks (player g dfn) ! j))"
  shows "fallthrough c rnd g =
     (if rnd = 1 \<or> rnd = 2 then Inr (g, BEFORE_CARD_OPEN)
      else if rnd = 3 then
        Inr (awarded c (if so = sd then DRAWN else DUEL_FINISHED) (if sd < so then off else dfn) g)
      else Inl ValueError)"
proof -
  have od: "offense (duel_ongoing g) \<noteq> defense (duel_ongoing g)" using roles by simp
  have e: "Duel_end st (Some w) None g = Inr (award st w g)" if "st = DRAWN \<or> st = DUEL_FINISHED" for st w
    using that by (simp add: Duel_end_winner award_def)
  have c: "(case (deck_in_duel (player g off), deck_in_duel (player g dfn)) of
              (Some i, Some j) \<Rightarrow> f i j | _ \<Rightarrow> Inl TypeError) = f i j" for f :: "nat \<Rightarrow> nat \<Rightarrow> error + (Game \<times> Duration)"
    by (simp add: ci cj)
  show ?thesis
    unfolding fallthrough_def Let_def roles(1,2)[symmetric] c
    unfolding so[symmetric] sd[symmetric]
    by (cases "sd < so"; cases "so < sd")
       (simp_all add: e end_if_required_points_award[OF od])
qed

lemma conclude_eq:
  "conclude c (DONE_TIER, p) g = Inr (won_by_done p g, AFTER_GAME_ENDS)"
  "conclude c (DIE_TIER, p) g = Inr (died_by p g, AFTER_DUEL_ENDS)"
  "offense (duel_ongoing g) \<noteq> defense (duel_ongoing g) \<Longrightarrow>
     conclude c (DRAW_TIER, p) g = Inr (awarded c DRAWN p (count_draw p g))"
proof -
  show "conclude c (DONE_TIER, p) g = Inr (won_by_done p g, AFTER_GAME_ENDS)"
    by (simp add: Duel_end_no_winner won_by_done_def)
  show "conclude c (DIE_TIER, p) g = Inr (died_by p g, AFTER_DUEL_ENDS)"
    by (simp add: Duel_end_no_winner died_by_def)
  assume od: "offense (duel_ongoing g) \<noteq> defense (duel_ongoing g)"
  then have od': "offense (duel_ongoing (count_draw p g)) \<noteq> defense (duel_ongoing (count_draw p g))"
    by (simp add: count_frame)
  have "Duel_end DRAWN (Some p) None (count_draw p g) = Inr (award DRAWN p (count_draw p g))"
    by (simp add: Duel_end_winner award_def)
  then show "conclude c (DRAW_TIER, p) g = Inr (awarded c DRAWN p (count_draw p g))"
    by (simp add: end_if_required_points_award[OF od'])
qed

text \<open>The source's three loops and their tail, written as one decision.\<close>

lemma resolve_eq:
  assumes rnd: "rnd = duel_round (duel_ongoing h)" "rnd = 1 \<or> rnd = 2 \<or> rnd = 3"
    and roles: "off = offense (duel_ongoing h)" "dfn = defense (duel_ongoing h)" "off \<noteq> dfn"
    and drawn: "is_drawn h = Inr eq"
    and g1: "g1 = count_done_if dfn (count_done_if off h)"
    and g3: "g3 = count_draw_if c rnd dfn (count_draw_if c rnd off g1)"
  shows "resolve c h =
     (if recent_action (player h off) = Some DONE \<and> is_done (player h off)
      then Inr (won_by_done off h, AFTER_GAME_ENDS)
      else if recent_action (player h dfn) = Some DONE \<and> is_done (player h dfn)
      then Inr (won_by_done dfn (count_done_if off h), AFTER_GAME_ENDS)
      else if die_valid c rnd h off then Inr (died_by off g1, AFTER_DUEL_ENDS)
      else if die_valid c rnd h dfn then Inr (died_by dfn g1, AFTER_DUEL_ENDS)
      else if draw_valid c rnd h off \<and> eq then Inr (awarded c DRAWN off (count_draw off g1))
      else if draw_valid c rnd h dfn \<and> eq
      then Inr (awarded c DRAWN dfn (count_draw dfn (count_draw_if c rnd off g1)))
      else fallthrough c rnd g3)"
proof -
  have dv: "die_valid c rnd g1 p = die_valid c rnd h p" for p
    by (simp add: die_valid_def g1 count_done_if_frame)
  have wv: "draw_valid c rnd g1 p = draw_valid c rnd h p" for p
    by (simp add: draw_valid_def g1 count_done_if_frame)
  have g1d: "duel_ongoing g1 = duel_ongoing h" by (simp add: g1 count_done_if_frame)
  have dr1: "is_drawn g1 = Inr eq"
    using drawn unfolding is_drawn_def Let_def g1d
    by (simp only: g1 count_done_if_frame)
  have roles1: "off = offense (duel_ongoing g1)" "dfn = defense (duel_ongoing g1)"
    using roles by (simp_all add: g1d)
  note D = done_tier_eq[OF rnd(2), of c off dfn h]
  note I = die_tier_eq[OF rnd(2), of c off dfn g1]
  note W = draw_tier_eq[OF rnd(2) roles1 roles(3) dr1, of c]
  show ?thesis
  proof (cases "recent_action (player h off) = Some DONE \<and> is_done (player h off)")
    case True
    have d: "for_players (done_body c rnd) [off, dfn] h
               = Inr (won_by_done off h, Some AFTER_GAME_ENDS)"
      unfolding D using True by auto
    show ?thesis
      using resolve_done[OF roles(1,2) rnd(1) d] True by auto
  next
    case n1: False
    show ?thesis
    proof (cases "recent_action (player h dfn) = Some DONE \<and> is_done (player h dfn)")
      case True
      have d: "for_players (done_body c rnd) [off, dfn] h
                 = Inr (won_by_done dfn (count_done_if off h), Some AFTER_GAME_ENDS)"
        unfolding D using n1 True by auto
      show ?thesis
        using resolve_done[OF roles(1,2) rnd(1) d] n1 True by auto
    next
      case n2: False
      have D': "for_players (done_body c rnd) [off, dfn] h = Inr (g1, None)"
        unfolding D using n1 n2 by (auto simp: g1)
      show ?thesis
      proof (cases "die_valid c rnd h off")
        case True
        have i: "for_players (die_body c rnd) [off, dfn] g1
                   = Inr (died_by off g1, Some AFTER_DUEL_ENDS)"
          unfolding I using True by (auto simp: dv)
        show ?thesis
          using resolve_die[OF roles(1,2) rnd(1) D' i] n1 n2 True by auto
      next
        case n3: False
        show ?thesis
        proof (cases "die_valid c rnd h dfn")
          case True
          have i: "for_players (die_body c rnd) [off, dfn] g1
                     = Inr (died_by dfn g1, Some AFTER_DUEL_ENDS)"
            unfolding I using n3 True by (auto simp: dv)
          show ?thesis
            using resolve_die[OF roles(1,2) rnd(1) D' i] n1 n2 n3 True by auto
        next
          case n4: False
          have I': "for_players (die_body c rnd) [off, dfn] g1 = Inr (g1, None)"
            unfolding I using n3 n4 by (auto simp: dv)
          show ?thesis
          proof (cases "draw_valid c rnd h off \<and> eq")
            case True
            have w: "for_players (draw_body c rnd) [off, dfn] g1
                       = Inr (fst (awarded c DRAWN off (count_draw off g1)),
                              Some (snd (awarded c DRAWN off (count_draw off g1))))"
              unfolding W using True by (auto simp: wv)
            show ?thesis
              using resolve_draw[OF roles(1,2) rnd(1) D' I' w] n1 n2 n3 n4 True by auto
          next
            case n5: False
            show ?thesis
            proof (cases "draw_valid c rnd h dfn \<and> eq")
              case True
              have w: "for_players (draw_body c rnd) [off, dfn] g1
                  = Inr (fst (awarded c DRAWN dfn (count_draw dfn (count_draw_if c rnd off g1))),
                         Some (snd (awarded c DRAWN dfn (count_draw dfn (count_draw_if c rnd off g1)))))"
                unfolding W using n5 True by (auto simp: wv)
              show ?thesis
                using resolve_draw[OF roles(1,2) rnd(1) D' I' w] n1 n2 n3 n4 n5 True by auto
            next
              case n6: False
              have W': "for_players (draw_body c rnd) [off, dfn] g1 = Inr (g3, None)"
                unfolding W using n5 n6 by (auto simp: wv g3)
              show ?thesis
                using resolve_fallthrough[OF roles(1,2) rnd(1) D' I' W'] n1 n2 n3 n4 n5 n6
                by auto
            qed
          qed
        qed
      qed
    qed
  qed
qed

text \<open>The evaluation in priority order, written as the same decision.\<close>

lemma resolve_by_priority_eq:
  assumes rnd: "rnd = duel_round (duel_ongoing h)"
    and roles: "off = offense (duel_ongoing h)" "dfn = defense (duel_ongoing h)" "off \<noteq> dfn"
    and drawn: "is_drawn h = Inr eq"
    and g1: "g1 = count_done_if dfn (count_done_if off h)"
    and g3: "g3 = count_draw_if c rnd dfn (count_draw_if c rnd off g1)"
  shows "resolve_by_priority c h =
     (if recent_action (player h off) = Some DONE \<and> is_done (player h off)
      then Inr (won_by_done off h, AFTER_GAME_ENDS)
      else if recent_action (player h dfn) = Some DONE \<and> is_done (player h dfn)
      then Inr (won_by_done dfn (count_done_if off h), AFTER_GAME_ENDS)
      else if die_valid c rnd h off then Inr (died_by off g1, AFTER_DUEL_ENDS)
      else if die_valid c rnd h dfn then Inr (died_by dfn g1, AFTER_DUEL_ENDS)
      else if draw_valid c rnd h off \<and> eq then Inr (awarded c DRAWN off (count_draw off g1))
      else if draw_valid c rnd h dfn \<and> eq
      then Inr (awarded c DRAWN dfn (count_draw dfn (count_draw_if c rnd off g1)))
      else fallthrough c rnd g3)"
proof -
  define q1 where "q1 = (recent_action (player h off) = Some DONE \<and> is_done (player h off))"
  define q2 where "q2 = (recent_action (player h dfn) = Some DONE \<and> is_done (player h dfn))"
  define q3 where "q3 = die_valid c rnd h off"
  define q4 where "q4 = die_valid c rnd h dfn"
  define q5 where "q5 = (draw_valid c rnd h off \<and> eq)"
  define q6 where "q6 = (draw_valid c rnd h dfn \<and> eq)"
  have Q: "qualifies c h (DONE_TIER, off) = q1" "qualifies c h (DONE_TIER, dfn) = q2"
    "qualifies c h (DIE_TIER, off) = q3" "qualifies c h (DIE_TIER, dfn) = q4"
    "qualifies c h (DRAW_TIER, off) = q5" "qualifies c h (DRAW_TIER, dfn) = q6"
    using drawn by (auto simp: q1_def q2_def q3_def q4_def q5_def q6_def rnd)
  have order: "tier_order (duel_ongoing h) =
     [(DONE_TIER, off), (DONE_TIER, dfn), (DIE_TIER, off), (DIE_TIER, dfn),
      (DRAW_TIER, off), (DRAW_TIER, dfn)]"
    by (simp add: tier_order_def roles)
  have g1d: "duel_ongoing g1 = duel_ongoing h" by (simp add: g1 count_done_if_frame)
  have od1: "offense (duel_ongoing g1) \<noteq> defense (duel_ongoing g1)"
    using roles by (simp add: g1d)
  have od2: "offense (duel_ongoing (count_draw_if c rnd off g1))
               \<noteq> defense (duel_ongoing (count_draw_if c rnd off g1))"
    using roles by (simp add: g1d count_draw_if_frame)
  have dI: "declared c h (DIE_TIER, p) = die_valid c rnd h p"
    and dW: "declared c h (DRAW_TIER, p) = draw_valid c rnd h p" for p
    by (simp_all add: rnd)
  have wv: "draw_valid c rnd g1 p = draw_valid c rnd h p" for p
    by (simp add: draw_valid_def g1 count_done_if_frame)
  have wv2: "draw_valid c rnd (count_draw_if c rnd off g1) dfn = draw_valid c rnd h dfn"
    using roles(3) by (simp add: draw_valid_count_draw_if wv)
  have c1: "count_declared c h [(DONE_TIER, off)] = count_done_if off h"
    by (simp add: count_declared_def count_done_if_def)
  have c2: "count_declared c h [(DONE_TIER, off), (DONE_TIER, dfn)] = g1"
    by (simp add: count_declared_def count_done_if_def g1 player_count)
  have step: "count_declared c h (xs @ [x]) =
      (if declared c h x then count_declaration x (count_declared c h xs)
       else count_declared c h xs)" for xs x
    by (simp add: count_declared_def)
  have c3: "\<not> q3 \<Longrightarrow> count_declared c h [(DONE_TIER, off), (DONE_TIER, dfn), (DIE_TIER, off)] = g1"
    using step[of "[(DONE_TIER, off), (DONE_TIER, dfn)]" "(DIE_TIER, off)"]
    by (simp add: c2 dI q3_def del: declared.simps)
  have c4: "\<not> q3 \<Longrightarrow> \<not> q4 \<Longrightarrow> count_declared c h
       [(DONE_TIER, off), (DONE_TIER, dfn), (DIE_TIER, off), (DIE_TIER, dfn)] = g1"
    using step[of "[(DONE_TIER, off), (DONE_TIER, dfn), (DIE_TIER, off)]" "(DIE_TIER, dfn)"]
    by (simp add: c3 dI q4_def del: declared.simps)
  have c5: "\<not> q3 \<Longrightarrow> \<not> q4 \<Longrightarrow> count_declared c h
       [(DONE_TIER, off), (DONE_TIER, dfn), (DIE_TIER, off), (DIE_TIER, dfn),
        (DRAW_TIER, off)] = count_draw_if c rnd off g1"
    using step[of "[(DONE_TIER, off), (DONE_TIER, dfn), (DIE_TIER, off), (DIE_TIER, dfn)]"
                  "(DRAW_TIER, off)"]
    by (simp add: c4 dW count_draw_if_def wv del: declared.simps)
  have c6: "\<not> q3 \<Longrightarrow> \<not> q4 \<Longrightarrow> count_declared c h
       [(DONE_TIER, off), (DONE_TIER, dfn), (DIE_TIER, off), (DIE_TIER, dfn),
        (DRAW_TIER, off), (DRAW_TIER, dfn)] = g3"
    using step[of "[(DONE_TIER, off), (DONE_TIER, dfn), (DIE_TIER, off), (DIE_TIER, dfn),
                    (DRAW_TIER, off)]" "(DRAW_TIER, dfn)"]
    by (simp add: c5 dW g3 count_draw_if_def[of c rnd dfn] wv2 del: declared.simps)
  have c0: "count_declared c h [] = h" by (simp add: count_declared_def)
  have rhs: "resolve_by_priority c h =
     (if q1 then Inr (won_by_done off h, AFTER_GAME_ENDS)
      else if q2 then Inr (won_by_done dfn (count_done_if off h), AFTER_GAME_ENDS)
      else if q3 then Inr (died_by off g1, AFTER_DUEL_ENDS)
      else if q4 then Inr (died_by dfn g1, AFTER_DUEL_ENDS)
      else if q5 then Inr (awarded c DRAWN off (count_draw off g1))
      else if q6 then Inr (awarded c DRAWN dfn (count_draw dfn (count_draw_if c rnd off g1)))
      else fallthrough c rnd g3)"
    unfolding resolve_by_priority_def Let_def order
    by (simp add: Q c0 c1 c2 c3 c4 c5 c6 conclude_eq(1,2) conclude_eq(3)[OF od1]
          conclude_eq(3)[OF od2] rnd[symmetric] del: qualifies.simps conclude.simps)
  show ?thesis
    unfolding rhs q1_def q2_def q3_def q4_def q5_def q6_def by simp
qed

lemma is_drawn_hear:
  assumes "deck_in_duel (player g (offense (duel_ongoing g))) = Some i"
      and "deck_in_duel (player g (defense (duel_ongoing g))) = Some j"
  shows "is_drawn (hear shouts False False g) =
           Inr (sum_values (deck_cards (decks (player g (offense (duel_ongoing g))) ! i))
                = sum_values (deck_cards (decks (player g (defense (duel_ongoing g))) ! j)))"
proof -
  let ?h = "hear shouts False False g"
  have "is_drawn ?h =
           Inr (sum_values (deck_cards (decks (player ?h (offense (duel_ongoing ?h))) ! i))
                = sum_values (deck_cards (decks (player ?h (defense (duel_ongoing ?h))) ! j)))"
    by (rule is_drawn_committed) (simp_all add: hear_game_frame hear_player_fields assms)
  then show ?thesis by (simp add: hear_game_frame hear_player_fields)
qed

text \<open>
  C1. In every round (round counter 1, 2 or 3) of a duel whose two decks are committed,
  whatever shouts were heard, the source's shout resolution is exactly the evaluation
  in priority order: tiers DONE, DIE, DRAW, then the fallthrough; within a tier the
  offense before the defense; the first qualifying declaration decides the round,
  declarations ahead of it are only counted, and a declaration behind it (a
  simultaneous qualifying declaration of the other player included) is not processed.
\<close>

theorem shout_resolution_follows_priority:
  assumes "duel_round (duel_ongoing g) = 1 \<or> duel_round (duel_ongoing g) = 2
           \<or> duel_round (duel_ongoing g) = 3"
    and "offense (duel_ongoing g) \<noteq> defense (duel_ongoing g)"
    and "deck_in_duel (player g (offense (duel_ongoing g))) = Some i"
    and "deck_in_duel (player g (defense (duel_ongoing g))) = Some j"
  shows "process_shout c shouts g = resolve_by_priority c (hear shouts False False g)"
proof -
  let ?h = "hear shouts False False g"
  have d: "duel_ongoing ?h = duel_ongoing g" by (simp add: hear_game_frame)
  have rnd: "duel_round (duel_ongoing g) = duel_round (duel_ongoing ?h)" by (simp add: d)
  have roles: "offense (duel_ongoing g) = offense (duel_ongoing ?h)"
    "defense (duel_ongoing g) = defense (duel_ongoing ?h)" by (simp_all add: d)
  note dr = is_drawn_hear[OF assms(3,4), of shouts]
  have "resolve c ?h = resolve_by_priority c ?h"
    unfolding resolve_eq[OF rnd assms(1) roles assms(2) dr refl refl]
      resolve_by_priority_eq[OF rnd roles assms(2) dr refl refl]
    by (rule refl)
  then show ?thesis by (simp add: process_shout_def)
qed

lemma won_by_done_fields:
  assumes "offense (duel_ongoing g) \<noteq> defense (duel_ongoing g)"
  shows "player (won_by_done p g) q = close_deck_in_duel (player (count_done p g) q)"
    and "duel_state (duel_ongoing (won_by_done p g)) = ABORTED_BY_CORRECT_DONE"
    and "duel_over (duel_ongoing (won_by_done p g))"
    and "game_over (won_by_done p g)"
    and "game_winner (won_by_done p g) = Some p"
    and "game_result (won_by_done p g) = Some GAME_DONE"
proof -
  have od: "offense (duel_ongoing (ended st x y (count_done p g)))
              \<noteq> defense (duel_ongoing (ended st x y (count_done p g)))" for st x y
    using assms by (simp add: ended_frame count_frame)
  show "player (won_by_done p g) q = close_deck_in_duel (player (count_done p g) q)"
    unfolding won_by_done_def
    by (simp add: Game_end_frame player_close_decks[OF od] ended_frame)
  show "duel_state (duel_ongoing (won_by_done p g)) = ABORTED_BY_CORRECT_DONE"
    "duel_over (duel_ongoing (won_by_done p g))"
    "game_over (won_by_done p g)"
    "game_winner (won_by_done p g) = Some p"
    "game_result (won_by_done p g) = Some GAME_DONE"
    unfolding won_by_done_def
    by (simp_all add: Game_end_frame close_decks_frame ended_frame)
qed

lemma died_by_fields:
  assumes "offense (duel_ongoing g) \<noteq> defense (duel_ongoing g)"
  shows "player (died_by p g) q = close_deck_in_duel (player (count_die p g) q)"
    and "duel_state (duel_ongoing (died_by p g)) = DIED"
    and "duel_over (duel_ongoing (died_by p g))"
    and "duel_winner (duel_ongoing (died_by p g)) = None"
    and "game_over (died_by p g) = game_over g"
    and "game_winner (died_by p g) = game_winner g"
    and "game_result (died_by p g) = game_result g"
proof -
  have od: "offense (duel_ongoing (ended st x y (count_die p g)))
              \<noteq> defense (duel_ongoing (ended st x y (count_die p g)))" for st x y
    using assms by (simp add: ended_frame count_frame)
  show "player (died_by p g) q = close_deck_in_duel (player (count_die p g) q)"
    unfolding died_by_def by (simp add: player_close_decks[OF od] ended_frame)
  show "duel_state (duel_ongoing (died_by p g)) = DIED"
    "duel_over (duel_ongoing (died_by p g))"
    "duel_winner (duel_ongoing (died_by p g)) = None"
    "game_over (died_by p g) = game_over g"
    "game_winner (died_by p g) = game_winner g"
    "game_result (died_by p g) = game_result g"
    unfolding died_by_def by (simp_all add: close_decks_frame ended_frame count_frame)
qed

lemma awarded_fields:
  assumes "offense (duel_ongoing g) \<noteq> defense (duel_ongoing g)"
  shows "player (fst (awarded c st w g)) q
           = close_deck_in_duel (if q = w then (player g q)\<lparr>points := points (player g q) + 1\<rparr>
                                 else player g q)"
    and "duel_state (duel_ongoing (fst (awarded c st w g))) = st"
    and "duel_winner (duel_ongoing (fst (awarded c st w g))) = Some w"
    and "duel_over (duel_ongoing (fst (awarded c st w g)))"
    and "points (player g w) + 1 = REQUIRED_POINTS c \<Longrightarrow>
           game_over (fst (awarded c st w g)) \<and> game_winner (fst (awarded c st w g)) = Some w
           \<and> game_result (fst (awarded c st w g)) = Some GAME_FINISHED
           \<and> snd (awarded c st w g) = AFTER_GAME_ENDS"
    and "points (player g w) + 1 \<noteq> REQUIRED_POINTS c \<Longrightarrow>
           game_over (fst (awarded c st w g)) = game_over g
           \<and> game_winner (fst (awarded c st w g)) = game_winner g
           \<and> game_result (fst (awarded c st w g)) = game_result g
           \<and> snd (awarded c st w g) = AFTER_DUEL_ENDS"
  by (simp_all add: awarded_def Game_end_frame award_frame[OF assms])

text \<open>The whole of \<open>process_shout\<close> as one decision, for a duel with both decks committed.\<close>

lemma process_shout_eq:
  assumes rnd: "rnd = duel_round (duel_ongoing g)" "rnd = 1 \<or> rnd = 2 \<or> rnd = 3"
    and roles: "off = offense (duel_ongoing g)" "dfn = defense (duel_ongoing g)" "off \<noteq> dfn"
    and ci: "deck_in_duel (player g off) = Some i"
    and cj: "deck_in_duel (player g dfn) = Some j"
    and so: "so = sum_values (deck_cards (decks (player g off) ! i))"
    and sd: "sd = sum_values (deck_cards (decks (player g dfn) ! j))"
    and h: "h = hear shouts False False g"
    and g1: "g1 = count_done_if dfn (count_done_if off h)"
    and g3: "g3 = count_draw_if c rnd dfn (count_draw_if c rnd off g1)"
  shows "process_shout c shouts g =
     (if recent_action (player h off) = Some DONE \<and> is_done (player h off)
      then Inr (won_by_done off h, AFTER_GAME_ENDS)
      else if recent_action (player h dfn) = Some DONE \<and> is_done (player h dfn)
      then Inr (won_by_done dfn (count_done_if off h), AFTER_GAME_ENDS)
      else if die_valid c rnd h off then Inr (died_by off g1, AFTER_DUEL_ENDS)
      else if die_valid c rnd h dfn then Inr (died_by dfn g1, AFTER_DUEL_ENDS)
      else if draw_valid c rnd h off \<and> so = sd then Inr (awarded c DRAWN off (count_draw off g1))
      else if draw_valid c rnd h dfn \<and> so = sd
      then Inr (awarded c DRAWN dfn (count_draw dfn (count_draw_if c rnd off g1)))
      else if rnd = 1 \<or> rnd = 2 then Inr (g3, BEFORE_CARD_OPEN)
      else Inr (awarded c (if so = sd then DRAWN else DUEL_FINISHED)
                  (if sd < so then off else dfn) g3))"
proof -
  have d: "duel_ongoing h = duel_ongoing g" by (simp add: h hear_game_frame)
  have rnd': "rnd = duel_round (duel_ongoing h)" by (simp add: d rnd)
  have roles': "off = offense (duel_ongoing h)" "dfn = defense (duel_ongoing h)"
    by (simp_all add: d roles)
  have dr: "is_drawn h = Inr (so = sd)"
    using is_drawn_hear[of g i j shouts] ci cj
    by (simp add: h so sd roles(1,2)[symmetric])
  have d3: "duel_ongoing g3 = duel_ongoing g"
    by (simp add: g3 g1 count_draw_if_frame count_done_if_frame d)
  have p3: "deck_in_duel (player g3 p) = deck_in_duel (player g p)"
    "decks (player g3 p) = decks (player g p)" for p
    by (simp_all add: g3 g1 count_draw_if_frame count_done_if_frame h hear_player_fields)
  have ft: "fallthrough c rnd g3 =
     (if rnd = 1 \<or> rnd = 2 then Inr (g3, BEFORE_CARD_OPEN)
      else if rnd = 3 then
        Inr (awarded c (if so = sd then DRAWN else DUEL_FINISHED) (if sd < so then off else dfn) g3)
      else Inl ValueError)"
    by (rule fallthrough_eq[OF _ _ roles(3), where i = i and j = j])
       (simp_all add: d3 p3 roles(1,2)[symmetric] ci cj so sd)
  show ?thesis
    unfolding process_shout_def h[symmetric]
      resolve_eq[OF rnd' rnd(2) roles' roles(3) dr g1 g3] ft
    using rnd(2) by auto
qed

lemma counted_fields:
  assumes h: "h = hear shouts False False g"
    and g1: "g1 = count_done_if dfn (count_done_if off h)"
    and g3: "g3 = count_draw_if c rnd dfn (count_draw_if c rnd off g1)"
  shows "duel_ongoing h = duel_ongoing g" "duel_ongoing g1 = duel_ongoing g"
    "duel_ongoing g3 = duel_ongoing g"
    "game_over g1 = game_over g" "game_winner g1 = game_winner g" "game_result g1 = game_result g"
    "game_over g3 = game_over g" "game_winner g3 = game_winner g" "game_result g3 = game_result g"
    "points (player g1 p) = points (player g p)" "points (player g3 p) = points (player g p)"
    "num_shout_die (player g1 p) = num_shout_die (player g p)"
    "num_shout_draw (player h p) = num_shout_draw (player g p)"
    "is_done (player h p) = is_done (player g p)"
    "num_shout_done (player g3 p) = num_shout_done (player g1 p)"
  unfolding g3 g1 h
  by (simp_all add: count_draw_if_frame count_done_if_frame hear_game_frame hear_player_fields
        is_done_decks[of "player (hear shouts False False g) p" "player g p"])

text \<open>
  C2. In round 3, when neither player's DONE is correct and no allowed DRAW meets equal
  sums, the duel is decided by the sums of the two committed decks: the greater sum
  wins (state FINISHED), equal sums give the duel to the defense (state DRAWN); the
  winner gains exactly one point, the other player none; and the game ends as
  FINISHED with that winner exactly when this point makes the required total.
\<close>

theorem round_three_compares_sums:
  assumes r3: "duel_round (duel_ongoing g) = 3"
    and roles: "off = offense (duel_ongoing g)" "dfn = defense (duel_ongoing g)" "off \<noteq> dfn"
    and ci: "deck_in_duel (player g off) = Some i"
    and cj: "deck_in_duel (player g dfn) = Some j"
    and so: "so = sum_values (deck_cards (decks (player g off) ! i))"
    and sd: "sd = sum_values (deck_cards (decks (player g dfn) ! j))"
    and h: "h = hear shouts False False g"
    and no_done_off: "\<not> (recent_action (player h off) = Some DONE \<and> is_done (player g off))"
    and no_done_dfn: "\<not> (recent_action (player h dfn) = Some DONE \<and> is_done (player g dfn))"
    and no_draw_off: "\<not> (recent_action (player h off) = Some DRAW
                         \<and> num_shout_draw (player g off) < MAX_DRAW c \<and> so = sd)"
    and no_draw_dfn: "\<not> (recent_action (player h dfn) = Some DRAW
                         \<and> num_shout_draw (player g dfn) < MAX_DRAW c \<and> so = sd)"
    and w: "w = (if sd < so then off else dfn)" and l: "l = (if sd < so then dfn else off)"
  shows "\<exists>g' d. process_shout c shouts g = Inr (g', d)
           \<and> duel_state (duel_ongoing g') = (if so = sd then DRAWN else DUEL_FINISHED)
           \<and> duel_winner (duel_ongoing g') = Some w
           \<and> points (player g' w) = points (player g w) + 1
           \<and> points (player g' l) = points (player g l)
           \<and> (points (player g w) + 1 = REQUIRED_POINTS c \<longrightarrow>
                 game_over g' \<and> game_winner g' = Some w
                 \<and> game_result g' = Some GAME_FINISHED \<and> d = AFTER_GAME_ENDS)
           \<and> (points (player g w) + 1 \<noteq> REQUIRED_POINTS c \<longrightarrow>
                 game_over g' = game_over g \<and> game_winner g' = game_winner g
                 \<and> game_result g' = game_result g \<and> d = AFTER_DUEL_ENDS)"
proof -
  define g1 where "g1 = count_done_if dfn (count_done_if off h)"
  define g3 where "g3 = count_draw_if c 3 dfn (count_draw_if c 3 off g1)"
  define st where "st = (if so = sd then DRAWN else DUEL_FINISHED)"
  note cf = counted_fields[OF h g1_def g3_def]
  have od3: "offense (duel_ongoing g3) \<noteq> defense (duel_ongoing g3)"
    using roles by (simp add: cf)
  have wl: "l \<noteq> w" using roles(3) by (simp add: w l)
  have res: "process_shout c shouts g = Inr (awarded c st w g3)"
    unfolding process_shout_eq[OF r3[symmetric] _ roles ci cj so sd h g1_def g3_def, simplified]
    using no_done_off no_done_dfn no_draw_off no_draw_dfn
    by (auto simp: st_def w die_valid_def draw_valid_def cf)
  note af = awarded_fields[OF od3, where c = c and st = st and w = w]
  show ?thesis
  proof (intro exI conjI)
    show "process_shout c shouts g = Inr (fst (awarded c st w g3), snd (awarded c st w g3))"
      by (simp add: res)
    show "duel_state (duel_ongoing (fst (awarded c st w g3))) = (if so = sd then DRAWN else DUEL_FINISHED)"
      using af(2) unfolding st_def by blast
    show "duel_winner (duel_ongoing (fst (awarded c st w g3))) = Some w" by (simp add: af)
    show "points (player (fst (awarded c st w g3)) w) = points (player g w) + 1"
      by (simp add: af close_deck_in_duel_fields cf)
    show "points (player (fst (awarded c st w g3)) l) = points (player g l)"
      using wl by (simp add: af close_deck_in_duel_fields cf)
    show "points (player g w) + 1 = REQUIRED_POINTS c \<longrightarrow>
                 game_over (fst (awarded c st w g3)) \<and> game_winner (fst (awarded c st w g3)) = Some w
                 \<and> game_result (fst (awarded c st w g3)) = Some GAME_FINISHED
                 \<and> snd (awarded c st w g3) = AFTER_GAME_ENDS"
      using af(5) by (simp add: cf)
    show "points (player g w) + 1 \<noteq> REQUIRED_POINTS c \<longrightarrow>
                 game_over (fst (awarded c st w g3)) = game_over g
                 \<and> game_winner (fst (awarded c st w g3)) = game_winner g
                 \<and> game_result (fst (awarded c st w g3)) = game_result g
                 \<and> snd (awarded c st w g3) = AFTER_DUEL_ENDS"
      using af(6) by (simp add: cf)
  qed
qed

lemma last_duel_3_facts:
  "duel_round (duel_ongoing (last_duel 3)) = 3"
  "PLAYER_RED = offense (duel_ongoing (last_duel 3))"
  "PLAYER_BLACK = defense (duel_ongoing (last_duel 3))"
  "deck_in_duel (player (last_duel 3) PLAYER_RED) = Some 8"
  "deck_in_duel (player (last_duel 3) PLAYER_BLACK) = Some 8"
  "38 = sum_values (deck_cards (decks (player (last_duel 3) PLAYER_RED) ! 8))"
  "38 = sum_values (deck_cards (decks (player (last_duel 3) PLAYER_BLACK) ! 8))"
  "points (player (last_duel 3) PLAYER_BLACK) = 2"
  "points (player (last_duel 3) PLAYER_RED) = 2"
  "game_over (last_duel 3) = False"
  by code_simp+

lemma idle_shouts_heard:
  "recent_action (player (hear [(PLAYER_RED, Some IDLE), (PLAYER_BLACK, Some IDLE)] False False
                            (last_duel 3)) PLAYER_RED) = Some IDLE"
  "recent_action (player (hear [(PLAYER_RED, Some IDLE), (PLAYER_BLACK, Some IDLE)] False False
                            (last_duel 3)) PLAYER_BLACK) = Some IDLE"
  by code_simp+

theorem round_three_compares_sums_witness:
  "(\<exists>g' d. process_shout constants_3_1_5 [(PLAYER_RED, Some IDLE), (PLAYER_BLACK, Some IDLE)]
              (last_duel 3) = Inr (g', d)
      \<and> duel_state (duel_ongoing g') = DRAWN
      \<and> duel_winner (duel_ongoing g') = Some PLAYER_BLACK
      \<and> points (player g' PLAYER_BLACK) = 3 \<and> points (player g' PLAYER_RED) = 2
      \<and> \<not> game_over g' \<and> d = AFTER_DUEL_ENDS)
   \<and> (\<exists>g' d. process_shout constants_3_1_3 [(PLAYER_RED, Some IDLE), (PLAYER_BLACK, Some IDLE)]
              (last_duel 3) = Inr (g', d)
      \<and> duel_state (duel_ongoing g') = DRAWN
      \<and> duel_winner (duel_ongoing g') = Some PLAYER_BLACK
      \<and> points (player g' PLAYER_BLACK) = 3 \<and> points (player g' PLAYER_RED) = 2
      \<and> game_over g' \<and> game_winner g' = Some PLAYER_BLACK
      \<and> game_result g' = Some GAME_FINISHED \<and> d = AFTER_GAME_ENDS)"
proof -
  note f = last_duel_3_facts
  have ne: "PLAYER_RED \<noteq> PLAYER_BLACK" by simp
  have nd: "\<not> (Some IDLE = Some DONE \<and> b)" "\<not> (Some IDLE = Some DRAW \<and> b)" for b by simp_all
  have w: "PLAYER_BLACK = (if (38::int) < 38 then PLAYER_RED else PLAYER_BLACK)"
    and l: "PLAYER_RED = (if (38::int) < 38 then PLAYER_BLACK else PLAYER_RED)" by simp_all
  have a: "REQUIRED_POINTS constants_3_1_5 = 5" "REQUIRED_POINTS constants_3_1_3 = 3"
    by (simp_all add: constants_3_1_5_def constants_3_1_3_def)
  from round_three_compares_sums[of "last_duel 3", OF f(1) f(2) f(3) ne f(4) f(5) f(6) f(7) refl
      _ _ _ _ w l, of "[(PLAYER_RED, Some IDLE), (PLAYER_BLACK, Some IDLE)]" constants_3_1_5]
  have A: "\<exists>g' d. process_shout constants_3_1_5 [(PLAYER_RED, Some IDLE), (PLAYER_BLACK, Some IDLE)]
              (last_duel 3) = Inr (g', d)
      \<and> duel_state (duel_ongoing g') = DRAWN
      \<and> duel_winner (duel_ongoing g') = Some PLAYER_BLACK
      \<and> points (player g' PLAYER_BLACK) = 3 \<and> points (player g' PLAYER_RED) = 2
      \<and> \<not> game_over g' \<and> d = AFTER_DUEL_ENDS"
    by (simp add: idle_shouts_heard f(8,9,10)[simplified] a) blast?
  from round_three_compares_sums[of "last_duel 3", OF f(1) f(2) f(3) ne f(4) f(5) f(6) f(7) refl
      _ _ _ _ w l, of "[(PLAYER_RED, Some IDLE), (PLAYER_BLACK, Some IDLE)]" constants_3_1_3]
  have B: "\<exists>g' d. process_shout constants_3_1_3 [(PLAYER_RED, Some IDLE), (PLAYER_BLACK, Some IDLE)]
              (last_duel 3) = Inr (g', d)
      \<and> duel_state (duel_ongoing g') = DRAWN
      \<and> duel_winner (duel_ongoing g') = Some PLAYER_BLACK
      \<and> points (player g' PLAYER_BLACK) = 3 \<and> points (player g' PLAYER_RED) = 2
      \<and> game_over g' \<and> game_winner g' = Some PLAYER_BLACK
      \<and> game_result g' = Some GAME_FINISHED \<and> d = AFTER_GAME_ENDS"
    by (simp add: idle_shouts_heard f(8,9,10)[simplified] a) blast?
  show ?thesis using A B by blast
qed

lemma last_duel_2_facts:
  "PLAYER_RED = offense (duel_ongoing (last_duel 2))"
  "PLAYER_BLACK = defense (duel_ongoing (last_duel 2))"
  "duel_round (duel_ongoing (last_duel 2)) = 1 \<or> duel_round (duel_ongoing (last_duel 2)) = 2"
  "num_shout_die (player (last_duel 2) PLAYER_RED) < MAX_DIE constants_3_1_5"
  "deck_in_duel (player (last_duel 2) PLAYER_RED) = Some 8"
  "8 < length (decks (player (last_duel 2) PLAYER_RED))"
  "deck_in_duel (player (last_duel 2) PLAYER_BLACK) = Some 8"
  "8 < length (decks (player (last_duel 2) PLAYER_BLACK))"
  "num_shout_die (player (last_duel 2) PLAYER_RED) = 2"
  "num_shout_die (player (last_duel 2) PLAYER_BLACK) = 2"
  "points (player (last_duel 2) PLAYER_RED) = 2"
  "points (player (last_duel 2) PLAYER_BLACK) = 2"
  "game_over (last_duel 2) = False"
  by code_simp+

lemma die_dare_heard:
  "recent_action (player (hear [(PLAYER_RED, Some DIE), (PLAYER_BLACK, Some DARE)] False False
                            (last_duel 2)) PLAYER_RED) = Some DIE"
  "recent_action (player (hear [(PLAYER_RED, Some DIE), (PLAYER_BLACK, Some DARE)] False False
                            (last_duel 2)) PLAYER_BLACK) = Some DARE"
  by code_simp+

theorem offense_die_ends_duel_witness:
  "\<exists>g'. process_shout constants_3_1_5 [(PLAYER_RED, Some DIE), (PLAYER_BLACK, Some DARE)]
           (last_duel 2) = Inr (g', AFTER_DUEL_ENDS)
      \<and> duel_state (duel_ongoing g') = DIED \<and> duel_winner (duel_ongoing g') = None
      \<and> points (player g' PLAYER_RED) = 2 \<and> points (player g' PLAYER_BLACK) = 2
      \<and> num_shout_die (player g' PLAYER_RED) = 3 \<and> num_shout_die (player g' PLAYER_BLACK) = 2
      \<and> deck_state (decks (player g' PLAYER_RED) ! 8) = FINISHED
      \<and> (\<forall>card \<in> set (deck_cards (decks (player g' PLAYER_RED) ! 8)). card_open card)
      \<and> deck_state (decks (player g' PLAYER_BLACK) ! 8) = FINISHED
      \<and> (\<forall>card \<in> set (deck_cards (decks (player g' PLAYER_BLACK) ! 8)). card_open card)
      \<and> deck_in_duel (player g' PLAYER_RED) = None \<and> deck_in_duel (player g' PLAYER_BLACK) = None
      \<and> \<not> game_over g'"
proof -
  note f = last_duel_2_facts
  have ne: "PLAYER_RED \<noteq> PLAYER_BLACK" by simp
  have nd: "\<not> (recent_action (player (hear [(PLAYER_RED, Some DIE), (PLAYER_BLACK, Some DARE)]
              False False (last_duel 2)) PLAYER_BLACK) = Some DONE
              \<and> is_done (player (last_duel 2) PLAYER_BLACK))"
    by (simp only: die_dare_heard) simp
  from offense_die_ends_duel[OF f(1) f(2) ne f(3) die_dare_heard(1) f(4) nd f(5) f(6) f(7) f(8)]
  show ?thesis
    by (simp add: f(9-13)[simplified]) blast?
qed

text \<open>
  C4 as stated fails when the defense answers the offense's DIE with a correct DONE. In
  the ninth duel, at its first shout (round counter 2) and equally with the counter
  at 1, red on offense declares DIE with 2 dies out of 3 used, black declares DONE
  with every rank value disclosed among its decks: the duel ends as
  ABORTED_BY_CORRECT_DONE, not DIED, red's die counter stays at 2, and black wins
  the game.
\<close>

theorem offense_die_preempted_by_done_counterexample:
  "offense (duel_ongoing (last_duel 2)) = PLAYER_RED
   \<and> num_shout_die (player_red (last_duel 2)) < MAX_DIE constants_3_1_5
   \<and> outcome_of (process_shout constants_3_1_5
        [(PLAYER_RED, Some DIE), (PLAYER_BLACK, Some DONE)] (last_duel 2))
     = Inr (\<lparr>out_duel_state = ABORTED_BY_CORRECT_DONE, out_duel_winner = None,
             out_game_over = True, out_game_winner = Some PLAYER_BLACK,
             out_game_result = Some GAME_DONE, out_round = 2, out_points = (2, 2),
             out_dies = (2, 2), out_dones = (0, 1), out_draws = (0, 0)\<rparr>, AFTER_GAME_ENDS)
   \<and> outcome_of (process_shout constants_3_1_5
        [(PLAYER_RED, Some DIE), (PLAYER_BLACK, Some DONE)] (last_duel 1))
     = Inr (\<lparr>out_duel_state = ABORTED_BY_CORRECT_DONE, out_duel_winner = None,
             out_game_over = True, out_game_winner = Some PLAYER_BLACK,
             out_game_result = Some GAME_DONE, out_round = 1, out_points = (2, 2),
             out_dies = (2, 2), out_dones = (0, 1), out_draws = (0, 0)\<rparr>, AFTER_GAME_ENDS)"
  by code_simp

theorem shout_resolution_follows_priority_witness:
  "process_shout constants_3_1_5 [(PLAYER_BLACK, Some DIE), (PLAYER_RED, Some DIE)] (last_duel 2)
     = resolve_by_priority constants_3_1_5
         (hear [(PLAYER_BLACK, Some DIE), (PLAYER_RED, Some DIE)] False False (last_duel 2))
   \<and> outcome_of (process_shout constants_3_1_5
         [(PLAYER_BLACK, Some DIE), (PLAYER_RED, Some DIE)] (last_duel 2))
     = Inr (\<lparr>out_duel_state = DIED, out_duel_winner = None,
             out_game_over = False, out_game_winner = None,
             out_game_result = None, out_round = 2, out_points = (2, 2),
             out_dies = (3, 2), out_dones = (0, 0), out_draws = (0, 0)\<rparr>, AFTER_DUEL_ENDS)"
proof -
  have r: "duel_round (duel_ongoing (last_duel 2)) = 1 \<or> duel_round (duel_ongoing (last_duel 2)) = 2
           \<or> duel_round (duel_ongoing (last_duel 2)) = 3" by code_simp
  have od: "offense (duel_ongoing (last_duel 2)) \<noteq> defense (duel_ongoing (last_duel 2))"
    by code_simp
  have ci: "deck_in_duel (player (last_duel 2) (offense (duel_ongoing (last_duel 2)))) = Some 8"
    and cj: "deck_in_duel (player (last_duel 2) (defense (duel_ongoing (last_duel 2)))) = Some 8"
    by code_simp+
  have o: "outcome_of (process_shout constants_3_1_5
         [(PLAYER_BLACK, Some DIE), (PLAYER_RED, Some DIE)] (last_duel 2))
     = Inr (\<lparr>out_duel_state = DIED, out_duel_winner = None,
             out_game_over = False, out_game_winner = None,
             out_game_result = None, out_round = 2, out_points = (2, 2),
             out_dies = (3, 2), out_dones = (0, 0), out_draws = (0, 0)\<rparr>, AFTER_DUEL_ENDS)"
    by code_simp
  show ?thesis
    using shout_resolution_follows_priority[OF r od ci cj] o by blast
qed

lemma set_Rank_values: "set Rank_values = {1..13}"
proof -
  have "set Rank_values = int ` {1..<14}" by (simp add: Rank_values_def)
  also have "\<dots> = {1..13}"
  proof (rule set_eqI)
    fix x :: int
    show "x \<in> int ` {1..<14} \<longleftrightarrow> x \<in> {1..13}"
    proof
      assume "x \<in> int ` {1..<14}"
      then show "x \<in> {1..13}" by auto
    next
      assume "x \<in> {1..13}"
      then have "x = int (nat x)" "nat x \<in> {1..<14}" by auto
      then show "x \<in> int ` {1..<14}" by blast
    qed
  qed
  finally show ?thesis .
qed

lemma length_Rank_values: "length Rank_values = 13"
  by (simp add: Rank_values_def)

lemma disclosed_values_in_range:
  assumes "values_in_rank_range p"
  shows "set (disclosed_values (decks p)) \<subseteq> {1..13}"
  using assms
  by (auto simp: values_in_rank_range_def disclosed_values_def list_all_iff split: if_splits)

lemma set_disclosed_values:
  "set (disclosed_values ds)
     = {v. \<exists>deck \<in> set ds. \<not> is_undisclosed deck
             \<and> (\<exists>c \<in> set (deck_cards deck). card_open c \<and> card_value c = v)}"
  by (auto simp: disclosed_values_def split: if_splits)

lemma full_rank_set_disclosed_iff:
  "full_rank_set_disclosed p \<longleftrightarrow> set Rank_values \<subseteq> set (disclosed_values (decks p))"
  by (auto simp: full_rank_set_disclosed_def set_disclosed_values)

lemma is_done_iff_full_rank_set:
  assumes "values_in_rank_range p"
  shows "is_done p \<longleftrightarrow> full_rank_set_disclosed p"
proof -
  let ?dv = "disclosed_values (decks p)"
  have dist: "distinct ?dv" by (simp add: disclosed_values_def)
  have sub: "set ?dv \<subseteq> {1..13::int}" by (rule disclosed_values_in_range[OF assms])
  have len: "length ?dv = card (set ?dv)" using dist by (simp add: distinct_card)
  show ?thesis
  proof
    assume "is_done p"
    then have "card (set ?dv) = card {1..13::int}"
      by (simp add: is_done_def length_Rank_values len)
    with sub have "set ?dv = {1..13}" by (simp add: card_subset_eq)
    then show "full_rank_set_disclosed p"
      by (simp add: full_rank_set_disclosed_iff set_Rank_values)
  next
    assume "full_rank_set_disclosed p"
    with sub have "set ?dv = {1..13}"
      by (auto simp: full_rank_set_disclosed_iff set_Rank_values)
    then have "card (set ?dv) = 13" by simp
    then show "is_done p" by (simp add: is_done_def length_Rank_values len)
  qed
qed

lemma resolve_lower:
  assumes "off = offense (duel_ongoing g)" "dfn = defense (duel_ongoing g)"
    "r = duel_round (duel_ongoing g)"
    "for_players (done_body c r) [off, dfn] g = Inr (g1, None)"
  shows "resolve c g = lower_tiers c r [off, dfn] g1"
  using assms(4) unfolding resolve_def Let_def assms(1-3)[symmetric] by simp

lemma done_counts:
  "num_shout_done (player (count_done_if q g) p)
     = num_shout_done (player g p)
       + (if p = q \<and> recent_action (player g q) = Some DONE then 1 else 0)"
  "num_shout_done (player (count_done q g) p)
     = num_shout_done (player g p) + (if p = q then 1 else 0)"
  "num_shout_done (player (count_draw q g) p) = num_shout_done (player g p)"
  "num_shout_done (player (count_die q g) p) = num_shout_done (player g p)"
  by (simp_all add: count_done_if_def player_count)

lemma final_done_counts:
  assumes "offense (duel_ongoing g) \<noteq> defense (duel_ongoing g)"
  shows "num_shout_done (player (won_by_done q g) p)
           = num_shout_done (player g p) + (if p = q then 1 else 0)"
    and "num_shout_done (player (died_by q g) p) = num_shout_done (player g p)"
    and "num_shout_done (player (fst (awarded c st w g)) p) = num_shout_done (player g p)"
  by (simp_all add: won_by_done_fields[OF assms] died_by_fields[OF assms]
        awarded_fields[OF assms] close_deck_in_duel_fields done_counts)

text \<open>
  C3, as amended. Take a player whose action for the round is DONE and whose DONE is
  processed, that is the offense, or the defense when the offense has not made a
  correct DONE. A DONE is correct when every rank value 1..13 is the value of an open
  card of one of the player's decks that have been sent to a duel (in duel or
  finished; the open delegates of decks still undisclosed do not count); all card
  values lie in 1..13. Then (1) shout resolution returns and the player's done counter
  has grown by exactly 1; (2) if the player's DONE is correct, the duel ends as
  ABORTED_BY_CORRECT_DONE and the game ends at once as DONE with this player as
  winner; (3) if neither player's DONE is correct, the DONE loop returns without
  ending anything (duel and game fields unchanged, counter incremented) and the
  result of the round is that of the lower tiers run on that state; (4) if the player
  is the offense and its DONE is correct, the defense's done counter is left as it
  was, whatever the defense declared, a correct DONE included, and the offense wins.
\<close>

theorem done_declaration:
  assumes rnd: "rnd = duel_round (duel_ongoing g)" "rnd = 1 \<or> rnd = 2 \<or> rnd = 3"
    and roles: "off = offense (duel_ongoing g)" "dfn = defense (duel_ongoing g)" "off \<noteq> dfn"
    and ci: "deck_in_duel (player g off) = Some i"
    and cj: "deck_in_duel (player g dfn) = Some j"
    and range: "values_in_rank_range (player g off)" "values_in_rank_range (player g dfn)"
    and h: "h = hear shouts False False g"
    and p: "p = off \<or> p = dfn"
    and declared: "recent_action (player h p) = Some DONE"
    and processed: "p = off \<or> \<not> (recent_action (player h off) = Some DONE
                                    \<and> full_rank_set_disclosed (player g off))"
  shows "(\<exists>g' d. process_shout c shouts g = Inr (g', d)
            \<and> num_shout_done (player g' p) = num_shout_done (player g p) + 1)
       \<and> (full_rank_set_disclosed (player g p) \<longrightarrow>
            (\<exists>g'. process_shout c shouts g = Inr (g', AFTER_GAME_ENDS)
               \<and> duel_state (duel_ongoing g') = ABORTED_BY_CORRECT_DONE
               \<and> duel_over (duel_ongoing g')
               \<and> game_over g' \<and> game_winner g' = Some p
               \<and> game_result g' = Some GAME_DONE))
       \<and> (\<not> (recent_action (player h off) = Some DONE \<and> full_rank_set_disclosed (player g off))
          \<and> \<not> (recent_action (player h dfn) = Some DONE \<and> full_rank_set_disclosed (player g dfn))
          \<longrightarrow>
            (\<exists>g1. for_players (done_body c rnd) [off, dfn] h = Inr (g1, None)
               \<and> num_shout_done (player g1 p) = num_shout_done (player g p) + 1
               \<and> duel_ongoing g1 = duel_ongoing g
               \<and> game_over g1 = game_over g \<and> game_winner g1 = game_winner g
               \<and> game_result g1 = game_result g
               \<and> process_shout c shouts g = lower_tiers c rnd [off, dfn] g1))
       \<and> (p = off \<and> full_rank_set_disclosed (player g off) \<longrightarrow>
            (\<exists>g'. process_shout c shouts g = Inr (g', AFTER_GAME_ENDS)
               \<and> game_over g' \<and> game_winner g' = Some off
               \<and> num_shout_done (player g' off) = num_shout_done (player g off) + 1
               \<and> num_shout_done (player g' dfn) = num_shout_done (player g dfn)))"
proof -
  define g1 where "g1 = count_done_if dfn (count_done_if off h)"
  define g3 where "g3 = count_draw_if c rnd dfn (count_draw_if c rnd off g1)"
  define so where "so = sum_values (deck_cards (decks (player g off) ! i))"
  define sd where "sd = sum_values (deck_cards (decks (player g dfn) ! j))"
  note cf = counted_fields[OF h g1_def g3_def]
  note eq = process_shout_eq[OF rnd roles ci cj so_def sd_def h g1_def g3_def]
  have full: "is_done (player h q) = full_rank_set_disclosed (player g q)" if "q = off \<or> q = dfn" for q
    using that range by (auto simp: cf is_done_iff_full_rank_set)
  have hd: "num_shout_done (player h q) = num_shout_done (player g q)" for q
    by (simp add: h hear_player_fields)
  have od: "offense (duel_ongoing x) \<noteq> defense (duel_ongoing x)"
    if "duel_ongoing x = duel_ongoing g" for x
    using roles that by simp
  have odh: "offense (duel_ongoing h) \<noteq> defense (duel_ongoing h)"
    and od0: "offense (duel_ongoing (count_done_if off h)) \<noteq> defense (duel_ongoing (count_done_if off h))"
    and od1: "offense (duel_ongoing g1) \<noteq> defense (duel_ongoing g1)"
    and od3: "offense (duel_ongoing g3) \<noteq> defense (duel_ongoing g3)"
    and od4: "offense (duel_ongoing (count_draw q g1)) \<noteq> defense (duel_ongoing (count_draw q g1))"
    and od5: "offense (duel_ongoing (count_draw q (count_draw_if c rnd off g1)))
                \<noteq> defense (duel_ongoing (count_draw q (count_draw_if c rnd off g1)))" for q
    by (rule od; simp add: cf count_done_if_frame count_frame count_draw_if_frame)+
  have c1: "num_shout_done (player g1 p) = num_shout_done (player g p) + 1"
    using declared p roles(3)
    by (auto simp: g1_def done_counts count_done_if_frame hd)
  have c0: "p = off \<Longrightarrow> num_shout_done (player (count_done_if off h) p) = num_shout_done (player g p) + 1"
    using declared by (simp add: done_counts hd)
  have c0': "p = dfn \<Longrightarrow> num_shout_done (player (count_done_if off h) p) = num_shout_done (player g p)"
    using roles(3) by (simp add: done_counts hd)
  have c3: "num_shout_done (player g3 p) = num_shout_done (player g p) + 1"
    by (simp add: cf c1)
  have cd: "num_shout_done (player (count_draw_if c rnd off g1) p) = num_shout_done (player g p) + 1"
    by (simp add: count_draw_if_frame c1)
  have part1: "\<exists>g' d. process_shout c shouts g = Inr (g', d)
            \<and> num_shout_done (player g' p) = num_shout_done (player g p) + 1"
  proof (cases "recent_action (player h off) = Some DONE \<and> is_done (player h off)")
    case True
    then have "p = off" using processed full[of off] by simp
    then show ?thesis
      using True by (simp add: eq final_done_counts[OF odh] hd)
  next
    case n1: False
    show ?thesis
    proof (cases "recent_action (player h dfn) = Some DONE \<and> is_done (player h dfn)")
      case True
      then show ?thesis
        using n1 p roles(3) c0 c0' by (auto simp add: eq final_done_counts[OF od0])
    next
      case n2: False
      have pair: "\<exists>g' d. (Inr x :: error + (Game \<times> Duration)) = Inr (g', d)
                    \<and> num_shout_done (player g' p) = num_shout_done (player g p) + 1"
        if "num_shout_done (player (fst x) p) = num_shout_done (player g p) + 1" for x
        using that by (cases x) simp
      have rest: "process_shout c shouts g =
         (if die_valid c rnd h off then Inr (died_by off g1, AFTER_DUEL_ENDS)
          else if die_valid c rnd h dfn then Inr (died_by dfn g1, AFTER_DUEL_ENDS)
          else if draw_valid c rnd h off \<and> so = sd then Inr (awarded c DRAWN off (count_draw off g1))
          else if draw_valid c rnd h dfn \<and> so = sd
          then Inr (awarded c DRAWN dfn (count_draw dfn (count_draw_if c rnd off g1)))
          else if rnd = 1 \<or> rnd = 2 then Inr (g3, BEFORE_CARD_OPEN)
          else Inr (awarded c (if so = sd then DRAWN else DUEL_FINISHED)
                      (if sd < so then off else dfn) g3))"
        unfolding eq by (simp only: n1 n2 if_False)
      have k1: "num_shout_done (player (fst (died_by q g1, AFTER_DUEL_ENDS)) p)
                  = num_shout_done (player g p) + 1" for q
        by (simp add: final_done_counts[OF od1] c1)
      have k2: "num_shout_done (player (fst (awarded c DRAWN off (count_draw off g1))) p)
                  = num_shout_done (player g p) + 1"
        by (simp add: final_done_counts[OF od4] done_counts c1)
      have k3: "num_shout_done (player (fst (awarded c DRAWN dfn
                    (count_draw dfn (count_draw_if c rnd off g1)))) p)
                  = num_shout_done (player g p) + 1"
        by (simp add: final_done_counts[OF od5] done_counts cd)
      have k4: "num_shout_done (player (fst (g3, BEFORE_CARD_OPEN)) p)
                  = num_shout_done (player g p) + 1"
        by (simp add: c3)
      have k5: "num_shout_done (player (fst (awarded c st w g3)) p)
                  = num_shout_done (player g p) + 1" for st w
        by (simp add: final_done_counts[OF od3] c3)
      show ?thesis
      proof (cases "die_valid c rnd h off")
        case True
        then show ?thesis unfolding rest using pair[OF k1[of off]] by auto
      next
        case a: False
        show ?thesis
        proof (cases "die_valid c rnd h dfn")
          case True
          then show ?thesis unfolding rest using a pair[OF k1[of dfn]] by auto
        next
          case b: False
          show ?thesis
          proof (cases "draw_valid c rnd h off \<and> so = sd")
            case True
            then show ?thesis unfolding rest using a b pair[OF k2] by auto
          next
            case c: False
            show ?thesis
            proof (cases "draw_valid c rnd h dfn \<and> so = sd")
              case True
              then show ?thesis unfolding rest using a b c pair[OF k3] by auto
            next
              case d: False
              show ?thesis
              proof (cases "rnd = 1 \<or> rnd = 2")
                case True
                then show ?thesis unfolding rest using a b c d pair[OF k4] by auto
              next
                case False
                then show ?thesis unfolding rest using a b c d pair[OF k5] by auto
              qed
            qed
          qed
        qed
      qed
    qed
  qed
  have part2: "\<exists>g'. process_shout c shouts g = Inr (g', AFTER_GAME_ENDS)
               \<and> duel_state (duel_ongoing g') = ABORTED_BY_CORRECT_DONE
               \<and> duel_over (duel_ongoing g')
               \<and> game_over g' \<and> game_winner g' = Some p
               \<and> game_result g' = Some GAME_DONE"
    if fp: "full_rank_set_disclosed (player g p)"
  proof (cases "p = off")
    case True
    then show ?thesis
      using fp declared full[of off]
      by (auto simp: eq won_by_done_fields[OF odh])
  next
    case False
    then have pd: "p = dfn" and noff: "\<not> (recent_action (player h off) = Some DONE \<and> is_done (player h off))"
      using p processed full[of off] by auto
    show ?thesis
      using fp declared full[of dfn] noff pd
      by (auto simp: eq won_by_done_fields[OF od0])
  qed
  have part3: "\<exists>g1. for_players (done_body c rnd) [off, dfn] h = Inr (g1, None)
               \<and> num_shout_done (player g1 p) = num_shout_done (player g p) + 1
               \<and> duel_ongoing g1 = duel_ongoing g
               \<and> game_over g1 = game_over g \<and> game_winner g1 = game_winner g
               \<and> game_result g1 = game_result g
               \<and> process_shout c shouts g = lower_tiers c rnd [off, dfn] g1"
    if n: "\<not> (recent_action (player h off) = Some DONE \<and> full_rank_set_disclosed (player g off))"
          "\<not> (recent_action (player h dfn) = Some DONE \<and> full_rank_set_disclosed (player g dfn))"
  proof -
    have dt: "for_players (done_body c rnd) [off, dfn] h = Inr (g1, None)"
      unfolding done_tier_eq[OF rnd(2)] using n full[of off] full[of dfn]
      by (auto simp: g1_def)
    have "resolve c h = lower_tiers c rnd [off, dfn] g1"
      by (rule resolve_lower[OF _ _ _ dt]) (simp_all add: cf roles rnd)
    then have "process_shout c shouts g = lower_tiers c rnd [off, dfn] g1"
      by (simp add: process_shout_def h)
    then show ?thesis
      using dt c1 by (auto simp: cf)
  qed
  have part4: "\<exists>g'. process_shout c shouts g = Inr (g', AFTER_GAME_ENDS)
               \<and> game_over g' \<and> game_winner g' = Some off
               \<and> num_shout_done (player g' off) = num_shout_done (player g off) + 1
               \<and> num_shout_done (player g' dfn) = num_shout_done (player g dfn)"
    if po: "p = off" and fo: "full_rank_set_disclosed (player g off)"
  proof -
    have t: "recent_action (player h off) = Some DONE \<and> is_done (player h off)"
      using declared po fo full[of off] by simp
    have e: "process_shout c shouts g = Inr (won_by_done off h, AFTER_GAME_ENDS)"
      unfolding eq using t by simp
    have w: "game_over (won_by_done off h)" "game_winner (won_by_done off h) = Some off"
      by (simp_all add: won_by_done_fields[OF odh])
    have n1: "num_shout_done (player (won_by_done off h) off) = num_shout_done (player g off) + 1"
      by (simp add: final_done_counts[OF odh] hd)
    have n2: "num_shout_done (player (won_by_done off h) dfn) = num_shout_done (player g dfn)"
      using roles(3) by (simp add: final_done_counts[OF odh] hd)
    show ?thesis
      unfolding e using w n1 n2 by blast
  qed
  show ?thesis using part1 part2 part3 part4 by blast
qed

lemma last_duel_2_done_facts:
  "2 = duel_round (duel_ongoing (last_duel 2))"
  "values_in_rank_range (player (last_duel 2) PLAYER_RED)"
  "values_in_rank_range (player (last_duel 2) PLAYER_BLACK)"
  "recent_action (player (hear [(PLAYER_RED, Some DONE), (PLAYER_BLACK, Some DARE)] False False
                            (last_duel 2)) PLAYER_RED) = Some DONE"
  "full_rank_set_disclosed (player (last_duel 2) PLAYER_RED)"
  "num_shout_done (player (last_duel 2) PLAYER_RED) = 0"
  by code_simp+

lemma second_duel_facts:
  "2 = duel_round (duel_ongoing second_duel)"
  "PLAYER_BLACK = offense (duel_ongoing second_duel)"
  "PLAYER_RED = defense (duel_ongoing second_duel)"
  "deck_in_duel (player second_duel PLAYER_BLACK) = Some 7"
  "deck_in_duel (player second_duel PLAYER_RED) = Some 0"
  "values_in_rank_range (player second_duel PLAYER_BLACK)"
  "values_in_rank_range (player second_duel PLAYER_RED)"
  "recent_action (player (hear [(PLAYER_BLACK, Some DONE), (PLAYER_RED, Some DARE)] False False
                            second_duel) PLAYER_BLACK) = Some DONE"
  "recent_action (player (hear [(PLAYER_BLACK, Some DONE), (PLAYER_RED, Some DARE)] False False
                            second_duel) PLAYER_RED) = Some DARE"
  "\<not> full_rank_set_disclosed (player second_duel PLAYER_BLACK)"
  "num_shout_done (player second_duel PLAYER_BLACK) = 0"
  "game_over second_duel = False"
  by code_simp+

lemma last_duel_2_both_done_facts:
  "recent_action (player (hear [(PLAYER_RED, Some DONE), (PLAYER_BLACK, Some DONE)] False False
                            (last_duel 2)) PLAYER_RED) = Some DONE"
  "num_shout_done (player (last_duel 2) PLAYER_BLACK) = 0"
  "full_rank_set_disclosed (player (last_duel 2) PLAYER_BLACK)"
  by code_simp+

theorem done_declaration_witness:
  "(\<exists>g'. process_shout constants_3_1_5 [(PLAYER_RED, Some DONE), (PLAYER_BLACK, Some DARE)]
            (last_duel 2) = Inr (g', AFTER_GAME_ENDS)
       \<and> duel_state (duel_ongoing g') = ABORTED_BY_CORRECT_DONE
       \<and> game_over g' \<and> game_winner g' = Some PLAYER_RED
       \<and> game_result g' = Some GAME_DONE)
   \<and> (\<exists>g' d. process_shout constants_3_1_5 [(PLAYER_RED, Some DONE), (PLAYER_BLACK, Some DARE)]
            (last_duel 2) = Inr (g', d)
       \<and> num_shout_done (player g' PLAYER_RED) = 1)
   \<and> (\<exists>g1. for_players (done_body constants_3_1_5 2) [PLAYER_BLACK, PLAYER_RED]
              (hear [(PLAYER_BLACK, Some DONE), (PLAYER_RED, Some DARE)] False False second_duel)
            = Inr (g1, None)
       \<and> num_shout_done (player g1 PLAYER_BLACK) = 1
       \<and> duel_ongoing g1 = duel_ongoing second_duel \<and> \<not> game_over g1
       \<and> process_shout constants_3_1_5 [(PLAYER_BLACK, Some DONE), (PLAYER_RED, Some DARE)]
            second_duel
          = lower_tiers constants_3_1_5 2 [PLAYER_BLACK, PLAYER_RED] g1)
   \<and> (full_rank_set_disclosed (player (last_duel 2) PLAYER_BLACK)
       \<and> (\<exists>g'. process_shout constants_3_1_5 [(PLAYER_RED, Some DONE), (PLAYER_BLACK, Some DONE)]
              (last_duel 2) = Inr (g', AFTER_GAME_ENDS)
          \<and> game_over g' \<and> game_winner g' = Some PLAYER_RED
          \<and> num_shout_done (player g' PLAYER_RED) = 1
          \<and> num_shout_done (player g' PLAYER_BLACK) = 0))"
proof -
  note f = last_duel_2_facts
  note d = last_duel_2_done_facts
  note s = second_duel_facts
  note b = last_duel_2_both_done_facts
  have two: "(2::int) = 1 \<or> (2::int) = 2 \<or> (2::int) = 3" by simp
  have ne: "PLAYER_RED \<noteq> PLAYER_BLACK" "PLAYER_BLACK \<noteq> PLAYER_RED" by simp_all
  have A: "(\<exists>g' d. process_shout constants_3_1_5 [(PLAYER_RED, Some DONE), (PLAYER_BLACK, Some DARE)]
            (last_duel 2) = Inr (g', d)
            \<and> num_shout_done (player g' PLAYER_RED) = 1)
       \<and> (\<exists>g'. process_shout constants_3_1_5 [(PLAYER_RED, Some DONE), (PLAYER_BLACK, Some DARE)]
            (last_duel 2) = Inr (g', AFTER_GAME_ENDS)
               \<and> duel_state (duel_ongoing g') = ABORTED_BY_CORRECT_DONE
               \<and> game_over g' \<and> game_winner g' = Some PLAYER_RED
               \<and> game_result g' = Some GAME_DONE)"
    using done_declaration[OF d(1) two f(1) f(2) ne(1) f(5) f(7) d(2) d(3) refl _ d(4),
        where c = constants_3_1_5] d(5) d(6)
    by (simp add: d(6)[simplified]) blast?
  have B: "\<exists>g1. for_players (done_body constants_3_1_5 2) [PLAYER_BLACK, PLAYER_RED]
              (hear [(PLAYER_BLACK, Some DONE), (PLAYER_RED, Some DARE)] False False second_duel)
            = Inr (g1, None)
       \<and> num_shout_done (player g1 PLAYER_BLACK) = 1
       \<and> duel_ongoing g1 = duel_ongoing second_duel \<and> \<not> game_over g1
       \<and> process_shout constants_3_1_5 [(PLAYER_BLACK, Some DONE), (PLAYER_RED, Some DARE)]
            second_duel
          = lower_tiers constants_3_1_5 2 [PLAYER_BLACK, PLAYER_RED] g1"
    using done_declaration[OF s(1) two s(2) s(3) ne(2) s(4) s(5) s(6) s(7) refl _ s(8),
        where c = constants_3_1_5] s(9) s(10)
    by (simp add: s(11,12)[simplified] s(8,9)[simplified]) blast?
  have C: "\<exists>g'. process_shout constants_3_1_5 [(PLAYER_RED, Some DONE), (PLAYER_BLACK, Some DONE)]
              (last_duel 2) = Inr (g', AFTER_GAME_ENDS)
          \<and> game_over g' \<and> game_winner g' = Some PLAYER_RED
          \<and> num_shout_done (player g' PLAYER_RED) = 1
          \<and> num_shout_done (player g' PLAYER_BLACK) = 0"
    using done_declaration[OF d(1) two f(1) f(2) ne(1) f(5) f(7) d(2) d(3) refl _ b(1),
        where c = constants_3_1_5] d(5) d(6) b(2)
    by (simp add: d(6)[simplified] b(2)[simplified]) blast?
  show ?thesis using A B C b(3) by blast
qed

text \<open>
  C3 as stated fails for a defense whose correct DONE meets a correct DONE of the
  offense. In the ninth duel both players have every rank value open among the decks
  they have sent to a duel and both declare DONE: black's done counter stays at 0 and
  the game ends with red, the offense, as winner.
\<close>

theorem defense_done_not_processed_counterexample:
  "recent_action (player_black (hear [(PLAYER_RED, Some DONE), (PLAYER_BLACK, Some DONE)]
                                  False False (last_duel 2))) = Some DONE
   \<and> every_rank_value_open (player_black (last_duel 2))
   \<and> full_rank_set_disclosed (player_black (last_duel 2))
   \<and> is_done (player_black (last_duel 2))
   \<and> num_shout_done (player_black (last_duel 2)) = 0
   \<and> outcome_of (process_shout constants_3_1_5
        [(PLAYER_RED, Some DONE), (PLAYER_BLACK, Some DONE)] (last_duel 2))
     = Inr (\<lparr>out_duel_state = ABORTED_BY_CORRECT_DONE, out_duel_winner = None,
             out_game_over = True, out_game_winner = Some PLAYER_RED,
             out_game_result = Some GAME_DONE, out_round = 2, out_points = (2, 2),
             out_dies = (2, 2), out_dones = (1, 0), out_draws = (0, 0)\<rparr>, AFTER_GAME_ENDS)"
  by code_simp

text \<open>
  The open delegates of undisclosed decks do not count towards a correct DONE. At the
  first shout of the eighth duel every rank value 1..13 is the value of an open card
  of one of red's decks, the 13 only as the open delegate of red's deck 8, which is
  still undisclosed. Red's DONE is counted but is not correct: the duel goes on and
  the next cards are to be opened.
\<close>

lemma done_ignores_delegates_of_undisclosed_decks:
  "every_rank_value_open (player_red eighth_duel)
   \<and> \<not> full_rank_set_disclosed (player_red eighth_duel)
   \<and> \<not> is_done (player_red eighth_duel)
   \<and> is_undisclosed (decks (player_red eighth_duel) ! 8)
   \<and> map (\<lambda>c. (card_value c, card_open c)) (deck_cards (decks (player_red eighth_duel) ! 8))
       = [(13, True), (12, False), (13, False)]
   \<and> outcome_of (process_shout constants_3_1_5
        [(PLAYER_BLACK, Some DARE), (PLAYER_RED, Some DONE)] eighth_duel)
     = Inr (\<lparr>out_duel_state = ONGOING, out_duel_winner = None,
             out_game_over = False, out_game_winner = None,
             out_game_result = None, out_round = 2, out_points = (2, 2),
             out_dies = (2, 1), out_dones = (1, 0), out_draws = (0, 0)\<rparr>, BEFORE_CARD_OPEN)"
  by code_simp















lemma round3_0_1: "round3 0 = 0" "round3 1 = 1"
  by code_simp+

lemma filter_open_all: "list_all card_open cards \<Longrightarrow> filter card_open cards = cards"
  by (simp add: list_all_iff)

text \<open>
  C9. Whenever both committed decks have three cards and all of them open, the odds
  calculator returns a degenerate distribution, for every random source, every pair
  of deck lists, either colour of the opponent and every joker value strategy:
  (1, 0, 0) when the acting player's deck has the greater sum, (0, 1, 0) when the sums
  are equal and (0, 0, 1) when the opponent's sum is greater.
\<close>

theorem get_chances_all_revealed:
  assumes me: "deck_in_duel_of deck_in_duel_me decks_me = Inr deck_me"
    and opp: "deck_in_duel_of deck_in_duel_opponent decks_opponent = Inr deck_opponent"
    and me3: "length (deck_cards deck_me) = 3" and me_open: "list_all card_open (deck_cards deck_me)"
    and opp3: "length (deck_cards deck_opponent) = 3"
    and opp_open: "list_all card_open (deck_cards deck_opponent)"
  shows "get_chances randint decks_me decks_opponent is_opponent_red deck_in_duel_me
           deck_in_duel_opponent joker_value_strategy_me
         = Inr (if sum_values (deck_cards deck_me) > sum_values (deck_cards deck_opponent)
                then (1, 0, 0)
                else if sum_values (deck_cards deck_me) = sum_values (deck_cards deck_opponent)
                then (0, 1, 0)
                else (0, 0, 1))"
proof -
  from me3 obtain a1 a2 a3 where a: "deck_cards deck_me = [a1, a2, a3]"
    by (auto simp: length_Suc_conv numeral_3_eq_3)
  from opp3 obtain b1 b2 b3 where b: "deck_cards deck_opponent = [b1, b2, b3]"
    by (auto simp: length_Suc_conv numeral_3_eq_3)
  have oa: "card_open a1" "card_open a2" "card_open a3" using me_open a by simp_all
  have ob: "card_open b1" "card_open b2" "card_open b3" using opp_open b by simp_all
  show ?thesis
    by (simp add: get_chances_def me opp a b oa ob round3_0_1)
qed

theorem get_chances_all_revealed_witness:
  "deck_in_duel_of None (decks (player_black (last_duel 3)))
     = Inr (decks (player_black (last_duel 3)) ! 8)
   \<and> deck_in_duel_of None (decks (player_red (last_duel 3)))
     = Inr (decks (player_red (last_duel 3)) ! 8)
   \<and> length (deck_cards (decks (player_black (last_duel 3)) ! 8)) = 3
   \<and> list_all card_open (deck_cards (decks (player_black (last_duel 3)) ! 8))
   \<and> length (deck_cards (decks (player_red (last_duel 3)) ! 8)) = 3
   \<and> list_all card_open (deck_cards (decks (player_red (last_duel 3)) ! 8))
   \<and> sum_values (deck_cards (decks (player_black (last_duel 3)) ! 8)) = 38
   \<and> sum_values (deck_cards (decks (player_red (last_duel 3)) ! 8)) = 38
   \<and> get_chances (\<lambda>n lo hi. lo) (decks (player_black (last_duel 3))) (decks (player_red (last_duel 3)))
         True None None RandomNumber = Inr (0, 1, 0)"
proof -
  have m: "deck_in_duel_of None (decks (player_black (last_duel 3)))
             = Inr (decks (player_black (last_duel 3)) ! 8)" by code_simp
  have o: "deck_in_duel_of None (decks (player_red (last_duel 3)))
             = Inr (decks (player_red (last_duel 3)) ! 8)" by code_simp
  have m3: "length (deck_cards (decks (player_black (last_duel 3)) ! 8)) = 3" by code_simp
  have mo: "list_all card_open (deck_cards (decks (player_black (last_duel 3)) ! 8))" by code_simp
  have o3: "length (deck_cards (decks (player_red (last_duel 3)) ! 8)) = 3" by code_simp
  have oo: "list_all card_open (deck_cards (decks (player_red (last_duel 3)) ! 8))" by code_simp
  have sm: "sum_values (deck_cards (decks (player_black (last_duel 3)) ! 8)) = 38" by code_simp
  have so: "sum_values (deck_cards (decks (player_red (last_duel 3)) ! 8)) = 38" by code_simp
  have "get_chances (\<lambda>n lo hi. lo) (decks (player_black (last_duel 3))) (decks (player_red (last_duel 3)))
          True None None RandomNumber = Inr (0, 1, 0)"
    unfolding get_chances_all_revealed[OF m o m3 mo o3 oo, of "\<lambda>n lo hi. lo" True RandomNumber] sm so by simp
  with m o m3 mo o3 oo sm so show ?thesis by blast
qed

text \<open>
  C10. The second duel of a game between a red player who places the joker with
  JokerLast and values it with SameAsMax, and a black player who consults the odds
  calculator. Red's deck 0 was built from the joker, the 7 and the ace of diamonds;
  JokerLast left the ace in front and the joker, valued 7, second. Red's other ace
  was opened in the first duel. At the first shout of the second duel black has ranks
  still undisclosed, so its action strategy calls the odds calculator; the delegate of
  red's deck is the ace, no unopened red card has a value of at most 1, there is no
  candidate hand for red, no pair is tallied, and the division by the total raises
  ZeroDivisionError.
\<close>

theorem get_chances_divides_by_zero:
  "duel_round (duel_ongoing second_duel) = 2
   \<and> undisclosed_values (decks (player_black second_duel)) \<noteq> []
   \<and> map (\<lambda>c. (card_rank c, card_value c, card_open c))
         (deck_cards (decks (player_red second_duel) ! 0))
       = [(Rank 1, 1, True), (JOKER, 7, True), (Rank 7, 7, False)]
   \<and> hidden_cards_opponent_of (decks (player_red second_duel)) True 1 = []
   \<and> get_chances (\<lambda>n lo hi. lo) (decks (player_black second_duel))
         (decks (player_red second_duel)) True None None SameAsMax = Inl ZeroDivisionError"
  by code_simp

end
